theory Spec2Isabelle
  imports Complex_Main "HOL-Library.Multiset" "HOL-Library.Log_Nat"
begin

section \<open>Python values used by \<open>src/dataset.py\<close>\<close>

text \<open>
  Exceptions are values. The constructors are the exception classes that the module
  raises itself (\<open>FileNotFoundError\<close>) or that the Python operations it uses raise
  (\<open>IndexError\<close> from indexing, \<open>KeyError\<close> from a dictionary lookup, \<open>ValueError\<close>
  from the libraries' argument checks). \<open>OtherError cls msg\<close> stands for any other
  exception class a collaborator may raise. The module defines no exception class of
  its own.
\<close>

datatype error =
    FileNotFoundError string
  | IndexError string
  | KeyError string
  | ValueError string
  | OtherError string string

text \<open>
  \<open>xs[i]\<close> on a Python list or a one-dimensional numpy array, for an integer \<open>i\<close>:
  an index in \<open>[-len, 0)\<close> counts from the end, anything outside \<open>[-len, len)\<close>
  raises \<open>IndexError\<close>.
\<close>

definition getitem :: "'a list \<Rightarrow> int \<Rightarrow> error + 'a" where
  "getitem xs i =
     (if 0 \<le> i \<and> i < int (length xs) then Inr (xs ! nat i)
      else if - int (length xs) \<le> i \<and> i < 0 then Inr (xs ! nat (int (length xs) + i))
      else Inl (IndexError ''index out of range''))"

text \<open>\<open>d[k]\<close> on a dictionary: \<open>KeyError\<close> when the key is absent.\<close>

definition dict_getitem :: "('k \<rightharpoonup> 'v) \<Rightarrow> 'k \<Rightarrow> error + 'v" where
  "dict_getitem d k = (case d k of None \<Rightarrow> Inl (KeyError ''key'') | Some v \<Rightarrow> Inr v)"

text \<open>
  A dictionary comprehension \<open>{k: v for ...}\<close> inserts the pairs in iteration order, a
  later pair overwriting an earlier one with the same key.
\<close>

definition dict_of :: "('k \<times> 'v) list \<Rightarrow> ('k \<rightharpoonup> 'v)" where
  "dict_of kvs = fold (\<lambda>(k, v) d. d(k \<mapsto> v)) kvs Map.empty"

text \<open>
  \<open>a[idx]\<close> for a numpy array \<open>a\<close> and an integer array \<open>idx\<close>: the elements of \<open>a\<close> at
  the positions listed, \<open>IndexError\<close> at the first position out of range.
\<close>

fun take_indices :: "'a list \<Rightarrow> int list \<Rightarrow> error + 'a list" where
  "take_indices a [] = Inr []"
| "take_indices a (i # idx) =
     (case getitem a i of
        Inl e \<Rightarrow> Inl e
      | Inr x \<Rightarrow> (case take_indices a idx of Inl e \<Rightarrow> Inl e | Inr xs \<Rightarrow> Inr (x # xs)))"

text \<open>\<open>np.arange(n)\<close>.\<close>

definition arange :: "nat \<Rightarrow> int list" where
  "arange n = map int [0..<n]"

section \<open>The image folder and \<open>FilteredDataset\<close>\<close>

text \<open>
  \<open>torchvision.datasets.ImageFolder\<close> as the module uses it: the sorted class folder
  names \<open>classes\<close>, the list \<open>samples\<close> of (path, class index) pairs, and the image
  loader, which may fail. \<open>dataset[i]\<close> reads \<open>samples[i]\<close>, loads the path and returns
  the image with the class index (no transform is configured on the folder itself).
\<close>

record 'img ImageFolder =
  classes :: "string list"
  samples :: "(string \<times> nat) list"
  loader :: "string \<Rightarrow> error + 'img"

definition ImageFolder_getitem :: "'img ImageFolder \<Rightarrow> int \<Rightarrow> error + ('img \<times> nat)" where
  "ImageFolder_getitem ds index =
     (case getitem (samples ds) index of
        Inl e \<Rightarrow> Inl e
      | Inr (path, target) \<Rightarrow>
          (case loader ds path of Inl e \<Rightarrow> Inl e | Inr sample \<Rightarrow> Inr (sample, target)))"

text \<open>The module constant \<open>class_names\<close>.\<close>

definition class_names :: "string list" where
  "class_names = [''basophil'', ''eosinophil'', ''erythroblast'', ''ig'', ''lymphocyte'',
     ''monocyte'', ''neutrophil'', ''platelet'']"

record 'img FilteredDataset =
  dataset :: "'img ImageFolder"
  class_to_idx :: "string \<rightharpoonup> nat"
  filtered_indices :: "nat list"
  targets :: "nat list"

text \<open>
  The loop of \<open>FilteredDataset.__init__\<close> over \<open>enumerate(dataset.samples)\<close>. The two
  accumulators are \<open>self.filtered_indices\<close> and \<open>self.targets\<close>; \<open>append\<close> adds at the
  end. \<open>dataset.classes[label]\<close> and \<open>self.class_to_idx[class_name]\<close> can raise.
\<close>

fun filter_loop ::
  "string list \<Rightarrow> string list \<Rightarrow> (string \<rightharpoonup> nat) \<Rightarrow> (nat \<times> string \<times> nat) list \<Rightarrow>
     nat list \<times> nat list \<Rightarrow> error + (nat list \<times> nat list)" where
  "filter_loop cls names c2i [] acc = Inr acc"
| "filter_loop cls names c2i ((idx, _, label) # rest) (fi, tg) =
     (case getitem cls (int label) of
        Inl e \<Rightarrow> Inl e
      | Inr class_name \<Rightarrow>
          if class_name \<in> set names then
            (case dict_getitem c2i class_name of
               Inl e \<Rightarrow> Inl e
             | Inr t \<Rightarrow> filter_loop cls names c2i rest (fi @ [idx], tg @ [t]))
          else filter_loop cls names c2i rest (fi, tg))"

text \<open>Line 42: \<open>{cls: idx for idx, cls in enumerate(class_names)}\<close>.\<close>

definition make_class_to_idx :: "string list \<Rightarrow> (string \<rightharpoonup> nat)" where
  "make_class_to_idx names = dict_of (map (\<lambda>(idx, cls). (cls, idx)) (enumerate 0 names))"

text \<open>
  \<open>FilteredDataset.__init__(dataset, class_names)\<close>. The two \<open>print\<close> calls write to
  standard output only and are left out.
\<close>

definition FilteredDataset_init ::
  "'img ImageFolder \<Rightarrow> string list \<Rightarrow> error + 'img FilteredDataset" where
  "FilteredDataset_init ds names =
     (let c2i = make_class_to_idx names in
      case filter_loop (classes ds) names c2i (enumerate 0 (samples ds)) ([], []) of
        Inl e \<Rightarrow> Inl e
      | Inr (fi, tg) \<Rightarrow>
          Inr \<lparr>dataset = ds, class_to_idx = c2i, filtered_indices = fi, targets = tg\<rparr>)"

definition FilteredDataset_len :: "'img FilteredDataset \<Rightarrow> nat" where
  "FilteredDataset_len fd = length (filtered_indices fd)"

definition FilteredDataset_getitem :: "'img FilteredDataset \<Rightarrow> int \<Rightarrow> error + ('img \<times> nat)" where
  "FilteredDataset_getitem fd idx =
     (case getitem (filtered_indices fd) idx of
        Inl e \<Rightarrow> Inl e
      | Inr original_idx \<Rightarrow>
          (case ImageFolder_getitem (dataset fd) (int original_idx) of
             Inl e \<Rightarrow> Inl e
           | Inr (img, _) \<Rightarrow>
               (case getitem (targets fd) idx of
                  Inl e \<Rightarrow> Inl e
                | Inr label \<Rightarrow> Inr (img, label))))"

section \<open>\<open>Subset\<close> and \<open>TransformSubset\<close>\<close>

text \<open>
  \<open>torch.utils.data.Subset(dataset, indices)\<close>: its length is \<open>len(indices)\<close> and
  \<open>subset[idx]\<close> is \<open>dataset[indices[idx]]\<close>. Here \<open>indices\<close> is one of the integer
  arrays returned by the splitter.
\<close>

record 'img Subset =
  sub_dataset :: "'img FilteredDataset"
  indices :: "int list"

definition Subset_len :: "'img Subset \<Rightarrow> nat" where
  "Subset_len s = length (indices s)"

definition Subset_getitem :: "'img Subset \<Rightarrow> int \<Rightarrow> error + ('img \<times> nat)" where
  "Subset_getitem s idx =
     (case getitem (indices s) idx of
        Inl e \<Rightarrow> Inl e
      | Inr i \<Rightarrow> FilteredDataset_getitem (sub_dataset s) i)"

text \<open>
  \<open>TransformSubset\<close>. The transform is \<open>None\<close> or a callable; \<open>if self.transform\<close>
  skips it when it is \<open>None\<close>. A transform may raise.
\<close>

record 'img TransformSubset =
  ts_subset :: "'img Subset"
  ts_transform :: "('img \<Rightarrow> error + 'img) option"

definition TransformSubset_len :: "'img TransformSubset \<Rightarrow> nat" where
  "TransformSubset_len ts = Subset_len (ts_subset ts)"

definition TransformSubset_getitem :: "'img TransformSubset \<Rightarrow> int \<Rightarrow> error + ('img \<times> nat)" where
  "TransformSubset_getitem ts idx =
     (case Subset_getitem (ts_subset ts) idx of
        Inl e \<Rightarrow> Inl e
      | Inr (img, label) \<Rightarrow>
          (case ts_transform ts of
             None \<Rightarrow> Inr (img, label)
           | Some f \<Rightarrow> (case f img of Inl e \<Rightarrow> Inl e | Inr img' \<Rightarrow> Inr (img', label))))"

section \<open>The stratified split\<close>

text \<open>
  \<open>sklearn.model_selection.train_test_split\<close> is a library function and a parameter
  of the model: \<open>split arrays test_size stratify random_state\<close> returns the two parts
  of \<open>arrays\<close> or raises. \<open>random_state\<close> is optional in the library (\<open>None\<close> draws
  from the global generator).
\<close>

type_synonym splitter =
  "int list \<Rightarrow> rat \<Rightarrow> nat list \<Rightarrow> nat option \<Rightarrow> error + (int list \<times> int list)"

text \<open>
  Lines 92 to 109 of \<open>create_dataloaders\<close>: \<open>n\<close> is \<open>len(filtered_dataset)\<close> and \<open>tg\<close>
  is \<open>filtered_dataset.targets\<close>. The result is \<open>(train_idx, val_idx, test_idx)\<close>.
  The first call passes \<open>test_size=0.2\<close> (the comment beside it speaks of 40%; the
  value is what the library receives), the second \<open>test_size=0.5\<close>, both
  \<open>random_state=42\<close>. \<open>targets[temp_idx]\<close> is evaluated before the second call.
\<close>

definition stratified_split ::
  "splitter \<Rightarrow> nat \<Rightarrow> nat list \<Rightarrow> error + (int list \<times> int list \<times> int list)" where
  "stratified_split train_test_split n tg =
     (case train_test_split (arange n) (1 / 5) tg (Some 42) of
        Inl e \<Rightarrow> Inl e
      | Inr (train_idx, temp_idx) \<Rightarrow>
          (case take_indices tg temp_idx of
             Inl e \<Rightarrow> Inl e
           | Inr temp_targets \<Rightarrow>
               (case train_test_split temp_idx (1 / 2) temp_targets (Some 42) of
                  Inl e \<Rightarrow> Inl e
                | Inr (val_idx, test_idx) \<Rightarrow> Inr (train_idx, val_idx, test_idx))))"

section \<open>Double precision numbers\<close>

text \<open>
  The weights are numpy float64 values. A float64 is modelled by the rational number
  it denotes, and an operation by its exact result rounded to the nearest float64, a
  tie going to the even significand (IEEE 754 binary64 with the default rounding).
  Only the normal range is modelled: the numbers rounded here are counts of array
  elements, which are int64 values below \<open>2^63\<close>, and their reciprocals, so neither an
  overflow nor a subnormal result occurs.
\<close>

definition round_half_even :: "rat \<Rightarrow> int" where
  "round_half_even x =
     (let f = \<lfloor>x\<rfloor>; r = x - of_int f
      in if r < 1 / 2 then f else if 1 / 2 < r then f + 1 else if even f then f else f + 1)"

text \<open>The exponent \<open>e\<close> of a positive \<open>x\<close>, the one with \<open>2^e \<le> x < 2^(e+1)\<close>.\<close>

definition float64_exponent :: "rat \<Rightarrow> int" where
  "float64_exponent x = (if 1 \<le> x then bitlen \<lfloor>x\<rfloor> - 1 else - bitlen (\<lceil>1 / x\<rceil> - 1))"

text \<open>
  Rounding to 53 significant bits: the unit in the last place of \<open>x\<close> is
  \<open>2^(e - 52)\<close>, and \<open>x\<close> is rounded to a multiple of it.
\<close>

definition float64_round :: "rat \<Rightarrow> rat" where
  "float64_round x =
     (if x = 0 then 0
      else (let ulp = 2 powi (float64_exponent \<bar>x\<bar> - 52)
            in sgn x * of_int (round_half_even (\<bar>x\<bar> / ulp)) * ulp))"

text \<open>The conversion of an integer to float64, and the float64 quotient \<open>a / b\<close>.\<close>

definition float64_of_nat :: "nat \<Rightarrow> rat" where
  "float64_of_nat n = float64_round (of_nat n)"

definition float64_div :: "rat \<Rightarrow> rat \<Rightarrow> rat" where
  "float64_div a b = float64_round (a / b)"

section \<open>The class weighted sampler\<close>

text \<open>
  \<open>np.unique(a, return_counts=True)\<close>: the sorted distinct values of \<open>a\<close> and, for
  each, how often it occurs.
\<close>

definition np_unique_counts :: "nat list \<Rightarrow> nat list \<times> nat list" where
  "np_unique_counts a = (let u = sort (remdups a) in (u, map (count_list a) u))"

text \<open>The comprehension \<open>[class_weights[t] for t in train_targets]\<close>.\<close>

fun lookup_each :: "(nat \<rightharpoonup> rat) \<Rightarrow> nat list \<Rightarrow> error + rat list" where
  "lookup_each d [] = Inr []"
| "lookup_each d (t # ts) =
     (case dict_getitem d t of
        Inl e \<Rightarrow> Inl e
      | Inr w \<Rightarrow> (case lookup_each d ts of Inl e \<Rightarrow> Inl e | Inr ws \<Rightarrow> Inr (w # ws)))"

text \<open>
  Lines 114 to 123. \<open>1.0 / count\<close> converts the integer count to a float64 and divides
  in float64; a count is the number of occurrences of a value that occurs, so the
  divisor is never zero. \<open>torch.DoubleTensor(...).tolist()\<close> keeps the values.
\<close>

definition sample_weights :: "nat list \<Rightarrow> error + rat list" where
  "sample_weights train_targets =
     (case np_unique_counts train_targets of
        (unique_classes, class_counts) \<Rightarrow>
          lookup_each
            (dict_of (map (\<lambda>(cls, count). (cls, float64_div 1 (float64_of_nat count)))
               (zip unique_classes class_counts)))
            train_targets)"

text \<open>
  \<open>torch.utils.data.WeightedRandomSampler\<close> keeps its three arguments; the
  constructor rejects a \<open>num_samples\<close> that is not positive, and \<open>len(sampler)\<close> is
  \<open>num_samples\<close>. The weights are float64 values, each given by the rational it
  denotes. Drawing the positions is the library's.
\<close>

record WeightedRandomSampler =
  weights :: "rat list"
  num_samples :: int
  replacement :: bool

definition WeightedRandomSampler_init ::
  "rat list \<Rightarrow> int \<Rightarrow> bool \<Rightarrow> error + WeightedRandomSampler" where
  "WeightedRandomSampler_init ws k r =
     (if k \<le> 0 then Inl (ValueError ''num_samples should be a positive integer value'')
      else Inr \<lparr>weights = ws, num_samples = k, replacement = r\<rparr>)"

definition WeightedRandomSampler_len :: "WeightedRandomSampler \<Rightarrow> int" where
  "WeightedRandomSampler_len s = num_samples s"

text \<open>Lines 113 to 131: the sampler built from the targets and \<open>train_idx\<close>.\<close>

definition train_sampler :: "nat list \<Rightarrow> int list \<Rightarrow> error + WeightedRandomSampler" where
  "train_sampler tg train_idx =
     (case take_indices tg train_idx of
        Inl e \<Rightarrow> Inl e
      | Inr train_targets \<Rightarrow>
          (case sample_weights train_targets of
             Inl e \<Rightarrow> Inl e
           | Inr sw \<Rightarrow> WeightedRandomSampler_init sw (int (length sw)) True))"

section \<open>\<open>create_dataloaders\<close>\<close>

text \<open>
  \<open>torch.utils.data.DataLoader\<close> as a value: the view it reads, the batch size, the
  sampler (\<open>None\<close> for sequential order) and the number of workers. The constructor
  rejects a negative \<open>num_workers\<close> and a \<open>batch_size\<close> that is not positive.
\<close>

record 'img DataLoader =
  dl_dataset :: "'img TransformSubset"
  dl_batch_size :: int
  dl_sampler :: "WeightedRandomSampler option"
  dl_num_workers :: int

definition DataLoader_init ::
  "'img TransformSubset \<Rightarrow> int \<Rightarrow> WeightedRandomSampler option \<Rightarrow> int \<Rightarrow>
     error + 'img DataLoader" where
  "DataLoader_init ds batch_size sampler num_workers =
     (if num_workers < 0 then Inl (ValueError ''num_workers option should be non-negative'')
      else if batch_size \<le> 0 then Inl (ValueError ''batch_size should be a positive integer value'')
      else Inr \<lparr>dl_dataset = ds, dl_batch_size = batch_size, dl_sampler = sampler,
                 dl_num_workers = num_workers\<rparr>)"

text \<open>
  What \<open>create_dataloaders\<close> reads from outside: the file system (\<open>os.path.exists\<close>
  and \<open>datasets.ImageFolder\<close>), the library splitter, and the module's dictionary
  \<open>transform\<close> of the three torchvision pipelines, which has the keys \<open>train\<close>, \<open>val\<close>
  and \<open>test\<close>. The result is the tuple the function returns, with its components named.
  The defaults \<open>batch_size=16\<close> and \<open>num_workers=4\<close> are the caller's to pass.
\<close>

record 'img env =
  path_exists :: "string \<Rightarrow> bool"
  image_folder :: "string \<Rightarrow> error + 'img ImageFolder"
  train_test_split :: splitter
  transform :: "string \<Rightarrow> 'img \<Rightarrow> error + 'img"

record 'img loaders =
  train_loader :: "'img DataLoader"
  val_loader :: "'img DataLoader"
  test_loader :: "'img DataLoader"
  train_dataset :: "'img TransformSubset"
  val_dataset :: "'img TransformSubset"
  test_dataset :: "'img TransformSubset"

definition create_dataloaders :: "'img env \<Rightarrow> string \<Rightarrow> int \<Rightarrow> int \<Rightarrow> error + 'img loaders" where
  "create_dataloaders env dataset_dir batch_size num_workers =
     (if \<not> path_exists env dataset_dir then
        Inl (FileNotFoundError
          (''Dataset directory '' @ [CHR 0x27] @ dataset_dir @ [CHR 0x27] @ '' not found.''))
      else
       (case image_folder env dataset_dir of
          Inl e \<Rightarrow> Inl e
        | Inr full_dataset \<Rightarrow>
       (case FilteredDataset_init full_dataset class_names of
          Inl e \<Rightarrow> Inl e
        | Inr filtered_dataset \<Rightarrow>
       (case stratified_split (train_test_split env) (FilteredDataset_len filtered_dataset)
               (targets filtered_dataset) of
          Inl e \<Rightarrow> Inl e
        | Inr (train_idx, val_idx, test_idx) \<Rightarrow>
       (case train_sampler (targets filtered_dataset) train_idx of
          Inl e \<Rightarrow> Inl e
        | Inr sampler \<Rightarrow>
       (let train_ds = \<lparr>ts_subset = \<lparr>sub_dataset = filtered_dataset, indices = train_idx\<rparr>,
                         ts_transform = Some (transform env ''train'')\<rparr>;
            val_ds = \<lparr>ts_subset = \<lparr>sub_dataset = filtered_dataset, indices = val_idx\<rparr>,
                       ts_transform = Some (transform env ''val'')\<rparr>;
            test_ds = \<lparr>ts_subset = \<lparr>sub_dataset = filtered_dataset, indices = test_idx\<rparr>,
                        ts_transform = Some (transform env ''test'')\<rparr>
        in
       (case DataLoader_init train_ds batch_size (Some sampler) num_workers of
          Inl e \<Rightarrow> Inl e
        | Inr train_ld \<Rightarrow>
       (case DataLoader_init val_ds batch_size None num_workers of
          Inl e \<Rightarrow> Inl e
        | Inr val_ld \<Rightarrow>
       (case DataLoader_init test_ds batch_size None num_workers of
          Inl e \<Rightarrow> Inl e
        | Inr test_ld \<Rightarrow>
            Inr \<lparr>train_loader = train_ld, val_loader = val_ld, test_loader = test_ld,
                 train_dataset = train_ds, val_dataset = val_ds,
                 test_dataset = test_ds\<rparr>)))))))))"

section \<open>Properties of a split and of the library splitter\<close>

text \<open>
  The number of positions of a part whose target is class \<open>c\<close>, and the fraction of
  the positions of class \<open>c\<close> that the part holds.
\<close>

definition class_count :: "nat list \<Rightarrow> int list \<Rightarrow> nat \<Rightarrow> nat" where
  "class_count tg part c = length (filter (\<lambda>v. getitem tg v = Inr c) part)"

definition class_fraction :: "nat list \<Rightarrow> int list \<Rightarrow> nat \<Rightarrow> rat" where
  "class_fraction tg part c = of_nat (class_count tg part c) / of_nat (count_list tg c)"

text \<open>
  What the library documents of \<open>train_test_split\<close>: the two parts it returns hold
  the elements of \<open>arrays\<close>, each once.
\<close>

definition splits_its_input :: "splitter \<Rightarrow> bool" where
  "splits_its_input f \<longleftrightarrow>
     (\<forall>arrays test_size stratify random_state tr te.
        f arrays test_size stratify random_state = Inr (tr, te) \<longrightarrow>
        mset tr + mset te = mset arrays)"

text \<open>
  The accuracy of the two library calls that the split makes, for a class \<open>c\<close>: the
  number of held-out positions of class \<open>c\<close> is within \<open>d\<close> of \<open>test_size\<close> times the
  number of positions of class \<open>c\<close> that the call was given. The arrays hold positions
  of the filtered index, and the class of a position \<open>v\<close> is \<open>targets[v]\<close>.
\<close>

definition first_call_within :: "rat \<Rightarrow> splitter \<Rightarrow> nat list \<Rightarrow> nat \<Rightarrow> bool" where
  "first_call_within d f tg c \<longleftrightarrow>
     (\<forall>train_idx temp_idx.
        f (arange (length tg)) (1 / 5) tg (Some 42) = Inr (train_idx, temp_idx) \<longrightarrow>
        \<bar>of_nat (class_count tg temp_idx c) - 1 / 5 * of_nat (count_list tg c)\<bar> \<le> d)"

definition second_call_within :: "rat \<Rightarrow> splitter \<Rightarrow> nat list \<Rightarrow> nat \<Rightarrow> bool" where
  "second_call_within d f tg c \<longleftrightarrow>
     (\<forall>train_idx temp_idx temp_targets val_idx test_idx.
        f (arange (length tg)) (1 / 5) tg (Some 42) = Inr (train_idx, temp_idx) \<longrightarrow>
        take_indices tg temp_idx = Inr temp_targets \<longrightarrow>
        f temp_idx (1 / 2) temp_targets (Some 42) = Inr (val_idx, test_idx) \<longrightarrow>
        \<bar>of_nat (class_count tg test_idx c) - 1 / 2 * of_nat (class_count tg temp_idx c)\<bar> \<le> d)"

text \<open>
  scikit-learn refuses to stratify on an array with a class of fewer than two members:
  the call raises a \<open>ValueError\<close>. The text of the message depends on the version of
  the library.
\<close>

definition refuses_small_classes :: "splitter \<Rightarrow> bool" where
  "refuses_small_classes f \<longleftrightarrow>
     (\<forall>arrays test_size stratify random_state.
        (\<exists>c \<in> set stratify. count_list stratify c < 2) \<longrightarrow>
        (\<exists>msg. f arrays test_size stratify random_state = Inl (ValueError msg)))"

section \<open>Test data\<close>

text \<open>
  A folder of three images, one of a class outside \<open>class_names\<close>. The loader returns
  the path as the image.
\<close>

definition small_folder :: "string ImageFolder" where
  "small_folder =
     \<lparr>classes = [''artifact'', ''basophil'', ''platelet''],
      samples = [(''artifact/x.jpg'', 0), (''basophil/y.jpg'', 1), (''platelet/z.jpg'', 2)],
      loader = (\<lambda>path. Inr path)\<rparr>"

text \<open>
  The filtered dataset of \<open>small_folder\<close> for \<open>class_names\<close>, and a view of its two
  positions in the order 1, 0 with a transform that marks the image.
\<close>

definition small_filtered :: "string FilteredDataset" where
  "small_filtered =
     \<lparr>dataset = small_folder, class_to_idx = make_class_to_idx class_names,
      filtered_indices = [1, 2], targets = [0, 7]\<rparr>"

definition small_view :: "string TransformSubset" where
  "small_view =
     \<lparr>ts_subset = \<lparr>sub_dataset = small_filtered, indices = [1, 0]\<rparr>,
      ts_transform = Some (\<lambda>img. Inr (''resized:'' @ img))\<rparr>"

text \<open>
  A folder with one image of a foreign class, two of \<open>basophil\<close> and nineteen of
  \<open>eosinophil\<close>: after filtering, 21 positions with targets \<open>0, 0, 1, ..., 1\<close>.
\<close>

definition targets21 :: "nat list" where
  "targets21 = [0, 0] @ replicate 19 1"

definition folder22 :: "string ImageFolder" where
  "folder22 =
     \<lparr>classes = [''artifact'', ''basophil'', ''eosinophil''],
      samples = (''artifact/0.jpg'', 0) #
        map (\<lambda>i. (''basophil/'' @ replicate i (CHR ''i'') @ ''.jpg'', 1)) [0..<2] @
        map (\<lambda>i. (''eosinophil/'' @ replicate i (CHR ''i'') @ ''.jpg'', 2)) [0..<19],
      loader = (\<lambda>path. Inr path)\<rparr>"

text \<open>
  A record of the library splitter on these data. scikit-learn computes the part sizes
  before it draws: for 21 samples and \<open>test_size = 0.2\<close> it holds out
  \<open>ceil(0.2 * 21) = 5\<close> and keeps 16; the 16 are allotted to the classes in
  proportion (\<open>2 * 16 / 21 = 1.52\<close> and \<open>19 * 16 / 21 = 14.48\<close>), rounded down to 1 and
  14, and the one remaining place goes to the class with the larger remainder, the
  first. So both \<open>basophil\<close> positions and 14 \<open>eosinophil\<close> positions are kept and 5
  \<open>eosinophil\<close> positions are held out. For these 5 and \<open>test_size = 0.5\<close> it holds
  out \<open>ceil(2.5) = 3\<close> and keeps 2. Which positions are drawn depends on the
  generator; the lists below have the sizes above and an order chosen here.
  A \<open>stratify\<close> array with a class of one member is refused with the library's
  \<open>ValueError\<close>; the message below is one version's and nothing depends on its
  text. Calls that are not recorded return an error marked as such.
\<close>

definition train_idx21 :: "int list" where
  "train_idx21 = [9, 0, 17, 3, 12, 20, 5, 1, 14, 7, 18, 2, 10, 15, 6, 11]"

definition temp_idx21 :: "int list" where
  "temp_idx21 = [13, 4, 19, 8, 16]"

definition val_idx21 :: "int list" where
  "val_idx21 = [19, 4]"

definition test_idx21 :: "int list" where
  "test_idx21 = [8, 16, 13]"

definition recorded_split :: splitter where
  "recorded_split arrays test_size stratify random_state =
     (if \<exists>c \<in> set stratify. count_list stratify c < 2 then
        Inl (ValueError (''The least populated class in y has only 1 member, which is too few.''
          @ '' The minimum number of groups for any class cannot be less than 2.''))
      else if arrays = arange 21 \<and> test_size = 1 / 5 \<and> stratify = targets21
              \<and> random_state = Some 42 then
        Inr (train_idx21, temp_idx21)
      else if arrays = temp_idx21 \<and> test_size = 1 / 2 \<and> stratify = replicate 5 1
              \<and> random_state = Some 42 then
        Inr (val_idx21, test_idx21)
      else Inl (OtherError ''NotRecorded'' ''no record of this call''))"

definition env22 :: "string env" where
  "env22 =
     \<lparr>path_exists = (\<lambda>path. path = ''data''),
      image_folder = (\<lambda>path. Inr folder22),
      train_test_split = recorded_split,
      transform = (\<lambda>name img. Inr (name @ '':'' @ img))\<rparr>"

section \<open>The filter: proofs\<close>

subsection \<open>The class index\<close>

lemma dict_of_snoc: "dict_of (kvs @ [(k, v)]) = (dict_of kvs)(k \<mapsto> v)"
  by (simp add: dict_of_def)

lemma make_class_to_idx_snoc:
  "make_class_to_idx (names @ [x]) = (make_class_to_idx names)(x \<mapsto> length names)"
  by (simp add: make_class_to_idx_def enumerate_append_eq dict_of_snoc)

lemma make_class_to_idx_Nil: "make_class_to_idx [] = Map.empty"
  by (simp add: make_class_to_idx_def dict_of_def)

lemma make_class_to_idx_None:
  "make_class_to_idx names x = None \<longleftrightarrow> x \<notin> set names"
  by (induction names rule: rev_induct)
     (auto simp: make_class_to_idx_Nil make_class_to_idx_snoc)

lemma make_class_to_idx_Some:
  "make_class_to_idx names x = Some i \<longleftrightarrow>
     i < length names \<and> names ! i = x \<and> (\<forall>j < length names. names ! j = x \<longrightarrow> j \<le> i)"
proof (induction names rule: rev_induct)
  case Nil
  show ?case by (simp add: make_class_to_idx_Nil)
next
  case (snoc y ys)
  show ?case
  proof (cases "x = y")
    case True
    have lhs: "make_class_to_idx (ys @ [y]) x = Some i \<longleftrightarrow> i = length ys"
      using True by (auto simp: make_class_to_idx_snoc)
    have rhs: "(i < length (ys @ [y]) \<and> (ys @ [y]) ! i = x \<and>
        (\<forall>j < length (ys @ [y]). (ys @ [y]) ! j = x \<longrightarrow> j \<le> i)) \<longleftrightarrow> i = length ys"
    proof
      assume a: "i < length (ys @ [y]) \<and> (ys @ [y]) ! i = x \<and>
        (\<forall>j < length (ys @ [y]). (ys @ [y]) ! j = x \<longrightarrow> j \<le> i)"
      then have "length ys \<le> i" using True by (simp add: nth_append)
      moreover from a have "i \<le> length ys" by simp
      ultimately show "i = length ys" by simp
    next
      assume "i = length ys"
      then show "i < length (ys @ [y]) \<and> (ys @ [y]) ! i = x \<and>
        (\<forall>j < length (ys @ [y]). (ys @ [y]) ! j = x \<longrightarrow> j \<le> i)"
        using True by simp
    qed
    show ?thesis using lhs rhs by simp
  next
    case False
    have "make_class_to_idx (ys @ [y]) x = make_class_to_idx ys x"
      using False by (simp add: make_class_to_idx_snoc)
    moreover have "(i < length (ys @ [y]) \<and> (ys @ [y]) ! i = x \<and>
        (\<forall>j < length (ys @ [y]). (ys @ [y]) ! j = x \<longrightarrow> j \<le> i)) \<longleftrightarrow>
      (i < length ys \<and> ys ! i = x \<and> (\<forall>j < length ys. ys ! j = x \<longrightarrow> j \<le> i))"
      using False by (auto simp: nth_append less_Suc_eq)
    ultimately show ?thesis using snoc.IH by simp
  qed
qed

subsection \<open>The loop\<close>

lemma getitem_nat: "l < length xs \<Longrightarrow> getitem xs (int l) = Inr (xs ! l)"
  by (simp add: getitem_def)

lemma filter_loop_result:
  assumes "\<forall>(i, p, l) \<in> set items. l < length cls"
    and "\<forall>x \<in> set names. c2i x \<noteq> None"
  shows "filter_loop cls names c2i items (fi, tg) =
     Inr (fi @ map fst (filter (\<lambda>(i, p, l). cls ! l \<in> set names) items),
          tg @ map (\<lambda>(i, p, l). the (c2i (cls ! l)))
                 (filter (\<lambda>(i, p, l). cls ! l \<in> set names) items))"
  using assms
proof (induction items arbitrary: fi tg)
  case Nil
  show ?case by simp
next
  case (Cons it items)
  obtain i p l where it: "it = (i, p, l)" by (cases it) auto
  from Cons.prems it have l: "l < length cls" by simp
  from Cons.prems have rest: "\<forall>(i, p, l) \<in> set items. l < length cls" by simp
  show ?case
  proof (cases "cls ! l \<in> set names")
    case True
    with Cons.prems(2) obtain t where t: "c2i (cls ! l) = Some t" by auto
    show ?thesis
      using True t l it Cons.IH [OF rest Cons.prems(2), of "fi @ [i]" "tg @ [t]"]
      by (simp add: getitem_nat dict_getitem_def)
  next
    case False
    show ?thesis
      using False l it Cons.IH [OF rest Cons.prems(2), of fi tg]
      by (simp add: getitem_nat)
  qed
qed

lemma enumerate_eq_map_nth: "enumerate 0 xs = map (\<lambda>i. (i, xs ! i)) [0..<length xs]"
  by (rule nth_equalityI) (simp_all add: nth_enumerate_eq)

lemma FilteredDataset_init_result:
  assumes wf: "\<forall>(path, label) \<in> set (samples ds). label < length (classes ds)"
  shows "FilteredDataset_init ds names =
     Inr \<lparr>dataset = ds, class_to_idx = make_class_to_idx names,
          filtered_indices =
            filter (\<lambda>i. classes ds ! snd (samples ds ! i) \<in> set names) [0..<length (samples ds)],
          targets =
            map (\<lambda>i. the (make_class_to_idx names (classes ds ! snd (samples ds ! i))))
              (filter (\<lambda>i. classes ds ! snd (samples ds ! i) \<in> set names)
                 [0..<length (samples ds)])\<rparr>"
proof -
  have a: "\<forall>(i, p, l) \<in> set (enumerate 0 (samples ds)). l < length (classes ds)"
  proof (clarify)
    fix i p l
    assume "(i, p, l) \<in> set (enumerate 0 (samples ds))"
    then have "(p, l) \<in> set (samples ds)"
      by (auto simp: in_set_enumerate_eq dest: nth_mem)
    with wf show "l < length (classes ds)" by auto
  qed
  have b: "\<forall>x \<in> set names. make_class_to_idx names x \<noteq> None"
    by (simp add: make_class_to_idx_None)
  show ?thesis
    unfolding FilteredDataset_init_def Let_def filter_loop_result [OF a b]
    by (simp add: enumerate_eq_map_nth filter_map comp_def case_prod_unfold)
qed

lemma length_filter_samples:
  "length (filter (\<lambda>i. P (xs ! i)) [0..<length xs]) = length (filter P xs)"
proof -
  have "filter P xs = filter P (map (\<lambda>i. xs ! i) [0..<length xs])"
    by (simp add: map_nth)
  also have "\<dots> = map (\<lambda>i. xs ! i) (filter (\<lambda>i. P (xs ! i)) [0..<length xs])"
    by (simp add: filter_map comp_def)
  finally show ?thesis by simp
qed

text \<open>
  Claim C3. For a corpus whose class indices all name a class folder, as an image
  folder's do, and any catalog \<open>names\<close>: the filter returns an index, as long as the
  number of samples whose class name is in the catalog; there is one target per
  position; the kept positions are the corpus positions with a class name in the
  catalog, in increasing order (the corpus order, nothing shuffled); and each target
  is below \<open>len(names)\<close> and is a position of the sample's class name in the catalog,
  the last such position (the only one when the catalog has no duplicate).
\<close>

theorem filter_index_correct:
  assumes wf: "\<forall>(path, label) \<in> set (samples ds). label < length (classes ds)"
  shows "\<exists>fd. FilteredDataset_init ds names = Inr fd
     \<and> FilteredDataset_len fd =
         length (filter (\<lambda>(path, label). classes ds ! label \<in> set names) (samples ds))
     \<and> length (targets fd) = FilteredDataset_len fd
     \<and> filtered_indices fd =
         filter (\<lambda>i. classes ds ! snd (samples ds ! i) \<in> set names) [0..<length (samples ds)]
     \<and> sorted_wrt (<) (filtered_indices fd)
     \<and> (\<forall>k < FilteredDataset_len fd.
           targets fd ! k < length names
         \<and> names ! (targets fd ! k) = classes ds ! snd (samples ds ! (filtered_indices fd ! k))
         \<and> (\<forall>j < length names. names ! j = names ! (targets fd ! k) \<longrightarrow> j \<le> targets fd ! k))"
proof -
  let ?keep = "\<lambda>i. classes ds ! snd (samples ds ! i) \<in> set names"
  let ?fi = "filter ?keep [0..<length (samples ds)]"
  let ?tg = "map (\<lambda>i. the (make_class_to_idx names (classes ds ! snd (samples ds ! i)))) ?fi"
  let ?fd = "\<lparr>dataset = ds, class_to_idx = make_class_to_idx names,
              filtered_indices = ?fi, targets = ?tg\<rparr>"
  have init: "FilteredDataset_init ds names = Inr ?fd"
    by (rule FilteredDataset_init_result [OF wf])
  have len: "length ?fi =
      length (filter (\<lambda>(path, label). classes ds ! label \<in> set names) (samples ds))"
    using length_filter_samples [of "\<lambda>(path, label). classes ds ! label \<in> set names" "samples ds"]
    by (simp add: case_prod_unfold)
  have srt: "sorted_wrt (<) ?fi"
    by (rule sorted_wrt_filter) (simp add: sorted_wrt_upt)
  have tgt: "?tg ! k < length names
         \<and> names ! (?tg ! k) = classes ds ! snd (samples ds ! (?fi ! k))
         \<and> (\<forall>j < length names. names ! j = names ! (?tg ! k) \<longrightarrow> j \<le> ?tg ! k)"
    if k: "k < length ?fi" for k
  proof -
    let ?name = "classes ds ! snd (samples ds ! (?fi ! k))"
    from k have "?fi ! k \<in> set ?fi" by (rule nth_mem)
    then have "?name \<in> set names" by simp
    then obtain t where t: "make_class_to_idx names ?name = Some t"
      using make_class_to_idx_None [of names ?name] by auto
    have tk: "?tg ! k = t" using k t by simp
    from t have "t < length names \<and> names ! t = ?name
        \<and> (\<forall>j < length names. names ! j = ?name \<longrightarrow> j \<le> t)"
      by (simp add: make_class_to_idx_Some)
    then show ?thesis unfolding tk by simp
  qed
  show ?thesis
    apply (rule exI [of _ ?fd])
    using init len srt tgt
    by (simp add: FilteredDataset_len_def)
qed

theorem filter_index_correct_witness:
  "\<exists>fd. FilteredDataset_init small_folder class_names = Inr fd
     \<and> FilteredDataset_len fd = 2 \<and> filtered_indices fd = [1, 2]
     \<and> length (targets fd) = 2"
proof -
  have wf: "\<forall>(path, label) \<in> set (samples small_folder). label < length (classes small_folder)"
    by (simp add: small_folder_def)
  have fi: "filter (\<lambda>i. classes small_folder ! snd (samples small_folder ! i) \<in> set class_names)
      [0..<length (samples small_folder)] = [1, 2]"
    by (simp add: small_folder_def class_names_def upt_rec)
  from filter_index_correct [OF wf, of class_names] obtain fd where
    "FilteredDataset_init small_folder class_names = Inr fd"
    "filtered_indices fd = [1, 2]"
    "length (targets fd) = FilteredDataset_len fd"
    unfolding fi by blast
  then show ?thesis by (auto simp: FilteredDataset_len_def)
qed

text \<open>
  Claim C8 says that an empty catalog makes the filter fail. It does not: the
  membership test is false for every sample, nothing is appended and the empty index
  is returned.
\<close>

theorem empty_catalog_counterexample:
  "FilteredDataset_init small_folder [] =
     Inr \<lparr>dataset = small_folder, class_to_idx = Map.empty, filtered_indices = [],
          targets = []\<rparr>"
  by (simp add: FilteredDataset_init_def make_class_to_idx_def dict_of_def small_folder_def
      getitem_def)

text \<open>
  Claim C8, amended. With an empty catalog the filter does not fail on a corpus
  whose class indices name a class folder: it returns the empty filtered index.
\<close>

theorem empty_catalog_gives_empty_index:
  assumes "\<forall>(path, label) \<in> set (samples ds). label < length (classes ds)"
  shows "FilteredDataset_init ds [] =
     Inr \<lparr>dataset = ds, class_to_idx = Map.empty, filtered_indices = [], targets = []\<rparr>"
  using FilteredDataset_init_result [OF assms, of "[]"]
  by (simp add: make_class_to_idx_Nil)

theorem empty_catalog_gives_empty_index_witness:
  "FilteredDataset_init folder22 [] =
     Inr \<lparr>dataset = folder22, class_to_idx = Map.empty, filtered_indices = [], targets = []\<rparr>"
proof -
  have "\<forall>(path, label) \<in> set (samples folder22). label < length (classes folder22)"
    by (auto simp: folder22_def)
  then show ?thesis by (rule empty_catalog_gives_empty_index)
qed

section \<open>The split views: proofs\<close>

lemma small_filtered_is_init:
  "FilteredDataset_init small_folder class_names = Inr small_filtered"
proof -
  have wf: "\<forall>(path, label) \<in> set (samples small_folder). label < length (classes small_folder)"
    by (simp add: small_folder_def)
  have c2i: "make_class_to_idx class_names ''basophil'' = Some 0"
    "make_class_to_idx class_names ''platelet'' = Some 7"
    by (simp_all add: make_class_to_idx_Some class_names_def nth_Cons' less_Suc_eq all_conj_distrib)
  show ?thesis
    unfolding FilteredDataset_init_result [OF wf] small_filtered_def
    using c2i by (simp add: small_folder_def class_names_def upt_rec)
qed

lemma getitem_out_of_range:
  "int (length xs) \<le> i \<or> i < - int (length xs) \<Longrightarrow>
     getitem xs i = Inl (IndexError ''index out of range'')"
  by (auto simp: getitem_def)

lemma getitem_negative:
  "- int (length xs) \<le> i \<Longrightarrow> i < 0 \<Longrightarrow> getitem xs i = getitem xs (i + int (length xs))"
  by (auto simp: getitem_def add.commute)

lemma getitem_Inr_range:
  "getitem xs i = Inr x \<Longrightarrow> - int (length xs) \<le> i \<and> i < int (length xs)"
  by (auto simp: getitem_def split: if_splits)

text \<open>
  Claim C9 says that \<open>get(i)\<close> fails for every \<open>i\<close> outside \<open>[0, len())\<close>. On a view
  of two positions, \<open>get(-1)\<close> returns the item of the last position: the index array
  and the lists are indexed as Python indexes them.
\<close>

theorem split_view_negative_index_counterexample:
  "TransformSubset_len small_view = 2
   \<and> TransformSubset_getitem small_view (- 1) = Inr (''resized:basophil/y.jpg'', 0)"
  by (simp add: TransformSubset_len_def TransformSubset_getitem_def Subset_len_def
      Subset_getitem_def FilteredDataset_getitem_def ImageFolder_getitem_def getitem_def
      small_view_def small_filtered_def small_folder_def)

text \<open>
  Claim C9, amended. For every view and every integer \<open>i\<close>: \<open>get(i)\<close> fails with an
  \<open>IndexError\<close> when \<open>i \<ge> len()\<close> or \<open>i < -len()\<close>; for \<open>-len() \<le> i < 0\<close> it is
  \<open>get(len() + i)\<close>; and it returns a pair only for \<open>-len() \<le> i < len()\<close>.
\<close>

theorem split_view_index_errors:
  "(int (TransformSubset_len ts) \<le> i \<or> i < - int (TransformSubset_len ts) \<longrightarrow>
      TransformSubset_getitem ts i = Inl (IndexError ''index out of range''))
   \<and> (- int (TransformSubset_len ts) \<le> i \<and> i < 0 \<longrightarrow>
      TransformSubset_getitem ts i = TransformSubset_getitem ts (i + int (TransformSubset_len ts)))
   \<and> (\<forall>x. TransformSubset_getitem ts i = Inr x \<longrightarrow>
      - int (TransformSubset_len ts) \<le> i \<and> i < int (TransformSubset_len ts))"
proof -
  have a: "TransformSubset_getitem ts i = Inl (IndexError ''index out of range'')"
    if "int (TransformSubset_len ts) \<le> i \<or> i < - int (TransformSubset_len ts)"
  proof -
    from that have "getitem (indices (ts_subset ts)) i = Inl (IndexError ''index out of range'')"
      by (intro getitem_out_of_range) (simp add: TransformSubset_len_def Subset_len_def)
    then show ?thesis
      by (simp add: TransformSubset_getitem_def Subset_getitem_def)
  qed
  have b: "TransformSubset_getitem ts i =
      TransformSubset_getitem ts (i + int (TransformSubset_len ts))"
    if "- int (TransformSubset_len ts) \<le> i \<and> i < 0"
  proof -
    from that have "getitem (indices (ts_subset ts)) i =
        getitem (indices (ts_subset ts)) (i + int (length (indices (ts_subset ts))))"
      by (intro getitem_negative) (simp_all add: TransformSubset_len_def Subset_len_def)
    then show ?thesis
      by (simp add: TransformSubset_getitem_def Subset_getitem_def TransformSubset_len_def
          Subset_len_def)
  qed
  have c: "- int (TransformSubset_len ts) \<le> i \<and> i < int (TransformSubset_len ts)"
    if "TransformSubset_getitem ts i = Inr x" for x
  proof -
    from that obtain j where "getitem (indices (ts_subset ts)) i = Inr j"
      by (auto simp: TransformSubset_getitem_def Subset_getitem_def split: sum.splits)
    then show ?thesis
      using getitem_Inr_range [of "indices (ts_subset ts)" i j]
      by (simp add: TransformSubset_len_def Subset_len_def)
  qed
  from a b c show ?thesis by blast
qed

theorem split_view_index_errors_witness:
  "TransformSubset_getitem small_view 2 = Inl (IndexError ''index out of range'')
   \<and> TransformSubset_getitem small_view (- 3) = Inl (IndexError ''index out of range'')
   \<and> TransformSubset_getitem small_view (- 2) = TransformSubset_getitem small_view 0"
proof -
  have len: "TransformSubset_len small_view = 2"
    by (simp add: TransformSubset_len_def Subset_len_def small_view_def)
  show ?thesis
    using split_view_index_errors [of small_view 2] split_view_index_errors [of small_view "- 3"]
      split_view_index_errors [of small_view "- 2"]
    by (simp add: len)
qed

text \<open>
  Claim C10. \<open>TransformSubset.__len__\<close> is the length of the wrapped subset. Whenever
  \<open>TransformSubset.__getitem__\<close> returns \<open>(x, label)\<close>, the subset returned
  \<open>(img, label)\<close> with the same label and \<open>x\<close> is the transform of \<open>img\<close> (\<open>img\<close> itself
  when no transform is configured); and whenever the subset returns \<open>(img, label)\<close>,
  the result is the transformed image with that label, or the transform's error.
\<close>

theorem transform_subset_keeps_label:
  "TransformSubset_len ts = Subset_len (ts_subset ts)
   \<and> (\<forall>x label. TransformSubset_getitem ts idx = Inr (x, label) \<longrightarrow>
        (\<exists>img. Subset_getitem (ts_subset ts) idx = Inr (img, label)
           \<and> (case ts_transform ts of None \<Rightarrow> x = img | Some f \<Rightarrow> f img = Inr x)))
   \<and> (\<forall>img label. Subset_getitem (ts_subset ts) idx = Inr (img, label) \<longrightarrow>
        TransformSubset_getitem ts idx =
          (case ts_transform ts of
             None \<Rightarrow> Inr (img, label)
           | Some f \<Rightarrow> (case f img of Inl e \<Rightarrow> Inl e | Inr x \<Rightarrow> Inr (x, label))))"
proof -
  have a: "TransformSubset_len ts = Subset_len (ts_subset ts)"
    by (simp add: TransformSubset_len_def)
  have b: "\<exists>img. Subset_getitem (ts_subset ts) idx = Inr (img, label)
           \<and> (case ts_transform ts of None \<Rightarrow> x = img | Some f \<Rightarrow> f img = Inr x)"
    if "TransformSubset_getitem ts idx = Inr (x, label)" for x label
  proof (cases "Subset_getitem (ts_subset ts) idx")
    case (Inl e)
    with that show ?thesis by (simp add: TransformSubset_getitem_def)
  next
    case (Inr p)
    obtain img l where p: "p = (img, l)" by (cases p)
    show ?thesis
    proof (cases "ts_transform ts")
      case None
      with that Inr p show ?thesis by (simp add: TransformSubset_getitem_def)
    next
      case (Some f)
      with that Inr p show ?thesis
        by (cases "f img") (simp_all add: TransformSubset_getitem_def)
    qed
  qed
  have c: "TransformSubset_getitem ts idx =
          (case ts_transform ts of
             None \<Rightarrow> Inr (img, label)
           | Some f \<Rightarrow> (case f img of Inl e \<Rightarrow> Inl e | Inr x \<Rightarrow> Inr (x, label)))"
    if "Subset_getitem (ts_subset ts) idx = Inr (img, label)" for img label
    using that by (simp add: TransformSubset_getitem_def)
  show ?thesis
  proof (intro conjI allI impI)
    show "TransformSubset_len ts = Subset_len (ts_subset ts)" by (rule a)
  next
    fix x label
    assume "TransformSubset_getitem ts idx = Inr (x, label)"
    then show "\<exists>img. Subset_getitem (ts_subset ts) idx = Inr (img, label)
           \<and> (case ts_transform ts of None \<Rightarrow> x = img | Some f \<Rightarrow> f img = Inr x)"
      by (rule b)
  next
    fix img label
    assume "Subset_getitem (ts_subset ts) idx = Inr (img, label)"
    then show "TransformSubset_getitem ts idx =
          (case ts_transform ts of
             None \<Rightarrow> Inr (img, label)
           | Some f \<Rightarrow> (case f img of Inl e \<Rightarrow> Inl e | Inr x \<Rightarrow> Inr (x, label)))"
      by (rule c)
  qed
qed

theorem transform_subset_keeps_label_witness:
  "TransformSubset_len small_view = 2
   \<and> Subset_getitem (ts_subset small_view) 0 = Inr (''platelet/z.jpg'', 7)
   \<and> TransformSubset_getitem small_view 0 = Inr (''resized:platelet/z.jpg'', 7)"
proof -
  have sub: "Subset_getitem (ts_subset small_view) 0 = Inr (''platelet/z.jpg'', 7)"
    by (simp add: Subset_getitem_def FilteredDataset_getitem_def ImageFolder_getitem_def
        getitem_def small_view_def small_filtered_def small_folder_def)
  have len: "Subset_len (ts_subset small_view) = 2"
    by (simp add: Subset_len_def small_view_def)
  have tr: "ts_transform small_view = Some (\<lambda>img. Inr (''resized:'' @ img))"
    by (simp add: small_view_def)
  have "TransformSubset_len small_view = Subset_len (ts_subset small_view)"
    using transform_subset_keeps_label [of small_view 0, THEN conjunct1] .
  moreover have "TransformSubset_getitem small_view 0 =
      (case ts_transform small_view of
         None \<Rightarrow> Inr (''platelet/z.jpg'', 7)
       | Some f \<Rightarrow> (case f ''platelet/z.jpg'' of Inl e \<Rightarrow> Inl e | Inr x \<Rightarrow> Inr (x, 7)))"
    using transform_subset_keeps_label [of small_view 0, THEN conjunct2, THEN conjunct2,
        rule_format, OF sub] .
  ultimately show ?thesis using sub len by (simp add: tr)
qed

section \<open>Double precision numbers: proofs\<close>

lemma round_half_even_error: "\<bar>of_int (round_half_even x) - x\<bar> \<le> 1 / 2"
proof -
  have "of_int \<lfloor>x\<rfloor> \<le> x" "x < of_int \<lfloor>x\<rfloor> + 1" by linarith+
  then show ?thesis
    by (auto simp: round_half_even_def Let_def)
qed

lemma round_half_even_of_int: "round_half_even (of_int k) = k"
  by (simp add: round_half_even_def)

lemma float64_exponent_bounds:
  assumes "0 < x"
  shows "2 powi (float64_exponent x) \<le> x \<and> x < 2 powi (float64_exponent x + 1)"
proof (cases "1 \<le> x")
  case True
  define m where "m = \<lfloor>x\<rfloor>"
  have m: "1 \<le> m" "of_int m \<le> x" "x < of_int m + 1"
    using True unfolding m_def by linarith+
  then have "0 < m" by simp
  from bitlen_bounds [OF this] have b: "2 ^ nat (bitlen m - 1) \<le> m" "m < 2 ^ nat (bitlen m)"
    by simp_all
  have b1: "1 \<le> bitlen m"
    using \<open>0 < m\<close> bitlen_eq_zero_iff [of m] bitlen_nonneg [of m] by linarith
  have e: "float64_exponent x = bitlen m - 1"
    using True by (simp add: float64_exponent_def m_def)
  have lo: "(2::rat) powi (bitlen m - 1) = 2 ^ nat (bitlen m - 1)"
    using b1 by (simp add: power_int_def)
  have hi: "(2::rat) powi (bitlen m - 1 + 1) = 2 ^ nat (bitlen m)"
    using b1 by (simp add: power_int_def)
  have "(2::rat) ^ nat (bitlen m - 1) \<le> of_int m"
    using b(1) by (metis of_int_le_iff of_int_numeral of_int_power)
  with m have l: "(2::rat) ^ nat (bitlen m - 1) \<le> x" by linarith
  from b(2) have "m + 1 \<le> 2 ^ nat (bitlen m)" by simp
  then have "of_int (m + 1) \<le> (2::rat) ^ nat (bitlen m)"
    by (metis of_int_le_iff of_int_numeral of_int_power)
  with m have h: "x < (2::rat) ^ nat (bitlen m)" by simp
  show ?thesis unfolding e lo hi using l h by simp
next
  case False
  define c where "c = \<lceil>1 / x\<rceil>"
  define k where "k = bitlen (c - 1)"
  from False assms have x1: "1 < 1 / x" by (simp add: field_simps)
  have c: "of_int c - 1 < 1 / x" "1 / x \<le> of_int c"
    unfolding c_def by linarith+
  with x1 have "1 < (of_int c :: rat)" by linarith
  then have c2: "2 \<le> c" by linarith
  then have pos: "0 < c - 1" by simp
  from bitlen_bounds [OF pos] have b: "2 ^ nat (k - 1) \<le> c - 1" "c - 1 < 2 ^ nat k"
    by (simp_all add: k_def)
  have k1: "1 \<le> k"
    using pos bitlen_eq_zero_iff [of "c - 1"] bitlen_nonneg [of "c - 1"]
    unfolding k_def by linarith
  have e: "float64_exponent x = - k"
    using False by (simp add: float64_exponent_def c_def k_def)
  have lo: "(2::rat) powi (- k) = 1 / 2 ^ nat k"
    using k1 by (simp add: power_int_def field_simps)
  have hi: "(2::rat) powi (- k + 1) = 1 / 2 ^ nat (k - 1)"
    using k1 by (auto simp: power_int_def field_simps nat_diff_distrib)
  from b(2) have "c \<le> 2 ^ nat k" by simp
  then have "of_int c \<le> (2::rat) ^ nat k"
    by (metis of_int_le_iff of_int_numeral of_int_power)
  with c have "1 / x \<le> 2 ^ nat k" by linarith
  then have l: "1 / 2 ^ nat k \<le> x"
    using assms by (simp add: field_simps)
  from b(1) have "(2::rat) ^ nat (k - 1) \<le> of_int (c - 1)"
    by (metis of_int_le_iff of_int_numeral of_int_power)
  with c have "2 ^ nat (k - 1) < 1 / x" by simp
  then have h: "x < 1 / 2 ^ nat (k - 1)"
    using assms by (simp add: field_simps)
  show ?thesis unfolding e lo hi using l h by simp
qed

lemma float64_round_error:
  assumes "0 < x"
  shows "\<bar>float64_round x - x\<bar> \<le> x / 2 ^ 53"
proof -
  define e where "e = float64_exponent x"
  define ulp :: rat where "ulp = 2 powi (e - 52)"
  have ulp: "0 < ulp" by (simp add: ulp_def)
  have fl: "float64_round x = of_int (round_half_even (x / ulp)) * ulp"
    using assms by (simp add: float64_round_def Let_def ulp_def e_def)
  have "float64_round x - x = (of_int (round_half_even (x / ulp)) - x / ulp) * ulp"
    using ulp by (simp add: fl field_simps)
  then have "\<bar>float64_round x - x\<bar> = \<bar>of_int (round_half_even (x / ulp)) - x / ulp\<bar> * ulp"
    using ulp by (simp add: abs_mult)
  also have "\<dots> \<le> 1 / 2 * ulp"
    using round_half_even_error [of "x / ulp"] ulp by (intro mult_right_mono) simp_all
  also have "1 / 2 * ulp = 2 powi e / 2 ^ 53"
  proof -
    have "(2::rat) powi (e - 52 + 52) = 2 powi (e - 52) * 2 powi 52"
      by (rule power_int_add) simp
    then show ?thesis by (simp add: ulp_def)
  qed
  also have "\<dots> \<le> x / 2 ^ 53"
    using float64_exponent_bounds [OF assms] by (simp add: e_def divide_right_mono)
  finally show ?thesis .
qed

lemma float64_of_nat_exact:
  assumes "n < 2 ^ 53"
  shows "float64_of_nat n = of_nat n"
proof (cases "n = 0")
  case True
  then show ?thesis by (simp add: float64_of_nat_def float64_round_def)
next
  case False
  define x :: rat where "x = of_nat n"
  define b where "b = bitlen (int n)"
  define j where "j = nat (53 - b)"
  define ulp :: rat where "ulp = 2 powi (float64_exponent x - 52)"
  have xpos: "0 < x" "1 \<le> x" using False by (simp_all add: x_def)
  have pos: "0 < int n" using False by simp
  from assms have "int n < 2 ^ 53"
    by (metis of_nat_less_iff of_nat_numeral of_nat_power)
  then have b53: "b \<le> 53"
    unfolding b_def using bitlen_le_iff_power [of "int n" 53] by simp
  have e: "float64_exponent x = b - 1"
    using xpos by (simp add: float64_exponent_def b_def x_def)
  have "float64_exponent x - 52 = - int j"
    using b53 by (simp add: e j_def)
  then have "ulp = inverse (2 powi (int j))"
    unfolding ulp_def by (simp only: power_int_minus)
  then have ulp: "ulp = 1 / 2 ^ j"
    by (simp add: inverse_eq_divide)
  have "x / ulp = of_int (int n * 2 ^ j)"
    by (simp add: ulp x_def)
  then have r: "round_half_even (x / ulp) = int n * 2 ^ j"
    by (simp only: round_half_even_of_int)
  have "float64_round x = sgn x * of_int (round_half_even (\<bar>x\<bar> / ulp)) * ulp"
    using xpos by (simp add: float64_round_def Let_def ulp_def)
  also have "\<dots> = of_int (round_half_even (x / ulp)) * ulp"
    using xpos by simp
  also have "\<dots> = of_int (int n * 2 ^ j) * (1 / 2 ^ j)"
    by (subst r) (simp only: ulp)
  also have "\<dots> = x"
    by (simp add: x_def)
  finally show ?thesis
    by (simp add: float64_of_nat_def x_def)
qed

lemma float64_reciprocal_error:
  assumes "0 < n" "n < 2 ^ 53"
  shows "\<bar>float64_div 1 (float64_of_nat n) - 1 / of_nat n\<bar> \<le> (1 / of_nat n) / 2 ^ 53"
  using float64_round_error [of "1 / rat_of_nat n"] assms
  by (simp add: float64_div_def float64_of_nat_exact)

text \<open>
  The quotients \<open>1.0 / n\<close> for some \<open>n\<close>, as fractions: \<open>1.0 / 3\<close> is
  \<open>0.3333333333333333\<close>, \<open>1.0 / 10\<close> is \<open>0.1\<close>, \<open>1.0 / 14\<close> is \<open>0.07142857142857142\<close> and
  \<open>1.0 / 19\<close> is \<open>0.05263157894736842\<close>.
\<close>

lemma float64_reciprocal_values:
  "float64_div 1 (float64_of_nat 1) = 1"
  "float64_div 1 (float64_of_nat 2) = 1 / 2"
  "float64_div 1 (float64_of_nat 3) = 6004799503160661 / 18014398509481984"
  "float64_div 1 (float64_of_nat 10) = 3602879701896397 / 36028797018963968"
  "float64_div 1 (float64_of_nat 14) = 2573485501354569 / 36028797018963968"
  "float64_div 1 (float64_of_nat 19) = 948126237341157 / 18014398509481984"
  by code_simp+

section \<open>The class weights and the sampler: proofs\<close>

lemma dict_of_zip_map:
  "dict_of (map (\<lambda>(k, n). (k, g n)) (zip u (map h u))) =
     (\<lambda>c. if c \<in> set u then Some (g (h c)) else None)"
proof (induction u rule: rev_induct)
  case Nil
  show ?case by (simp add: dict_of_def)
next
  case (snoc x u)
  have "map (\<lambda>(k, n). (k, g n)) (zip (u @ [x]) (map h (u @ [x]))) =
      map (\<lambda>(k, n). (k, g n)) (zip u (map h u)) @ [(x, g (h x))]"
    by simp
  then show ?case
    using snoc.IH by (auto simp: dict_of_snoc)
qed

lemma lookup_each_total:
  "\<forall>t \<in> set ts. d t \<noteq> None \<Longrightarrow> lookup_each d ts = Inr (map (\<lambda>t. the (d t)) ts)"
  by (induction ts) (auto simp: dict_getitem_def)

lemma sample_weights_eq:
  "sample_weights a = Inr (map (\<lambda>t. float64_div 1 (float64_of_nat (count_list a t))) a)"
proof -
  let ?w = "\<lambda>n. float64_div 1 (float64_of_nat n)"
  let ?d = "\<lambda>c. if c \<in> set a then Some (?w (count_list a c)) else None"
  have d: "dict_of (map (\<lambda>(cls, count). (cls, ?w count))
      (zip (sort (remdups a)) (map (count_list a) (sort (remdups a))))) = ?d"
    using dict_of_zip_map [of ?w "sort (remdups a)" "count_list a"]
    by simp
  have "lookup_each ?d a = Inr (map (\<lambda>t. the (?d t)) a)"
    by (rule lookup_each_total) simp
  also have "map (\<lambda>t. the (?d t)) a = map (\<lambda>t. ?w (count_list a t)) a"
    by simp
  finally show ?thesis
    by (simp add: sample_weights_def np_unique_counts_def Let_def d)
qed

lemma class_weight_sum:
  "sum_list (map snd (filter (\<lambda>(t, w). t = c) (zip a (map f a)))) =
     of_nat (count_list a c) * (f c :: rat)"
  by (induction a) (auto simp: algebra_simps)

text \<open>
  Claim C2 says that the weight of a sample is \<open>1 / n\<close> for a class of \<open>n\<close> training
  samples and that the weights of a class add up to exactly 1. The weights are
  float64 values: for ten training samples of one class each weight is the float64
  \<open>0.1\<close>, which is \<open>3602879701896397 / 2^55\<close> and not \<open>1 / 10\<close>, and the ten add up to
  \<open>1 + 2^-54\<close>.
\<close>

theorem class_weights_not_exact_counterexample:
  "sample_weights (replicate 10 0) = Inr (replicate 10 (3602879701896397 / 36028797018963968))
   \<and> (3602879701896397 / 36028797018963968 :: rat) \<noteq> 1 / 10
   \<and> sum_list (map snd (filter (\<lambda>(t, w). t = 0)
        (zip (replicate 10 (0::nat)) (replicate 10 (3602879701896397 / 36028797018963968 :: rat)))))
      = 1 + 1 / 2 ^ 54"
  by code_simp

text \<open>
  Claim C2, amended. For every sequence of fewer than \<open>2^53\<close> training targets (below
  \<open>2^53\<close> a count is a float64 exactly) the weights are computed without error, one per
  training sample and in the order of the input; the weight of a sample of class \<open>c\<close>
  is the float64 nearest to \<open>1 / n\<close>, for \<open>n\<close> the number of training samples of class
  \<open>c\<close>, and so within a relative error of \<open>2^-53\<close> of \<open>1 / n\<close>; and for every class present
  the weights of its samples add up to 1 within \<open>2^-53\<close>.
\<close>

theorem sample_weights_inverse_frequency:
  assumes "length train_targets < 2 ^ 53"
  shows "\<exists>ws. sample_weights train_targets = Inr ws
     \<and> length ws = length train_targets
     \<and> (\<forall>i < length train_targets.
          ws ! i = float64_round (1 / of_nat (count_list train_targets (train_targets ! i)))
        \<and> \<bar>ws ! i - 1 / of_nat (count_list train_targets (train_targets ! i))\<bar>
             \<le> (1 / of_nat (count_list train_targets (train_targets ! i))) / 2 ^ 53)
     \<and> (\<forall>c \<in> set train_targets.
          \<bar>sum_list (map snd (filter (\<lambda>(t, w). t = c) (zip train_targets ws))) - 1\<bar>
            \<le> 1 / 2 ^ 53)"
proof -
  let ?w = "\<lambda>t. float64_div 1 (float64_of_nat (count_list train_targets t))"
  let ?ws = "map ?w train_targets"
  have small: "count_list train_targets c < 2 ^ 53" for c
    using count_le_length [of train_targets c] assms by linarith
  have w: "?w c = float64_round (1 / of_nat (count_list train_targets c))" for c
    by (simp add: float64_div_def float64_of_nat_exact [OF small])
  have err: "\<bar>?w c - 1 / of_nat (count_list train_targets c)\<bar>
      \<le> (1 / of_nat (count_list train_targets c)) / 2 ^ 53"
    if "c \<in> set train_targets" for c
  proof -
    from that have "0 < count_list train_targets c"
      using count_list_0_iff [of train_targets c] by simp
    with small [of c] show ?thesis by (intro float64_reciprocal_error) simp_all
  qed
  have sum1: "\<bar>sum_list (map snd (filter (\<lambda>(t, w). t = c) (zip train_targets ?ws))) - 1\<bar>
      \<le> 1 / 2 ^ 53"
    if c: "c \<in> set train_targets" for c
  proof -
    define n :: rat where "n = of_nat (count_list train_targets c)"
    from c have n: "0 < n"
      using count_list_0_iff [of train_targets c] by (simp add: n_def)
    have "sum_list (map snd (filter (\<lambda>(t, w). t = c) (zip train_targets ?ws))) - 1
        = n * (?w c - 1 / n)"
      using n by (simp add: class_weight_sum n_def algebra_simps)
    then have "\<bar>sum_list (map snd (filter (\<lambda>(t, w). t = c) (zip train_targets ?ws))) - 1\<bar>
        = n * \<bar>?w c - 1 / n\<bar>"
      using n by (simp add: abs_mult)
    also have "\<dots> \<le> n * ((1 / n) / 2 ^ 53)"
      using err [OF c] n by (intro mult_left_mono) (simp_all add: n_def)
    also have "\<dots> = 1 / 2 ^ 53" using n by simp
    finally show ?thesis .
  qed
  show ?thesis
  proof (intro exI [of _ ?ws] conjI allI impI ballI)
    show "sample_weights train_targets = Inr ?ws" by (rule sample_weights_eq)
    show "length ?ws = length train_targets" by simp
  next
    fix i assume i: "i < length train_targets"
    then show "?ws ! i = float64_round (1 / of_nat (count_list train_targets (train_targets ! i)))"
      by (simp add: w)
    from i have "train_targets ! i \<in> set train_targets" by simp
    from err [OF this] i
    show "\<bar>?ws ! i - 1 / of_nat (count_list train_targets (train_targets ! i))\<bar>
             \<le> (1 / of_nat (count_list train_targets (train_targets ! i))) / 2 ^ 53"
      by simp
  next
    fix c assume "c \<in> set train_targets"
    then show "\<bar>sum_list (map snd (filter (\<lambda>(t, w). t = c) (zip train_targets ?ws))) - 1\<bar>
            \<le> 1 / 2 ^ 53"
      by (rule sum1)
  qed
qed

theorem sample_weights_inverse_frequency_witness:
  "\<exists>ws. sample_weights [0, 0, 0, 1] = Inr ws \<and> length ws = 4
     \<and> ws ! 0 = 6004799503160661 / 18014398509481984 \<and> ws ! 3 = 1
     \<and> \<bar>ws ! 0 - 1 / 3\<bar> \<le> (1 / 3) / 2 ^ 53
     \<and> \<bar>sum_list (map snd (filter (\<lambda>(t, w). t = 0) (zip [0, 0, 0, 1::nat] ws))) - 1\<bar>
          \<le> 1 / 2 ^ 53"
proof -
  have len: "length [0, 0, 0, 1::nat] < 2 ^ 53" by simp
  from sample_weights_inverse_frequency [OF len] obtain ws where
    ws: "sample_weights [0, 0, 0, 1] = Inr ws" "length ws = length [0, 0, 0, 1::nat]"
    and nth: "\<forall>i < length [0, 0, 0, 1::nat].
        ws ! i = float64_round (1 / of_nat (count_list [0, 0, 0, 1] ([0, 0, 0, 1::nat] ! i)))
      \<and> \<bar>ws ! i - 1 / of_nat (count_list [0, 0, 0, 1] ([0, 0, 0, 1::nat] ! i))\<bar>
           \<le> (1 / of_nat (count_list [0, 0, 0, 1] ([0, 0, 0, 1::nat] ! i))) / 2 ^ 53"
    and sums: "\<forall>c \<in> set [0, 0, 0, 1::nat].
      \<bar>sum_list (map snd (filter (\<lambda>(t, w). t = c) (zip [0, 0, 0, 1] ws))) - 1\<bar> \<le> 1 / 2 ^ 53"
    by blast
  have v: "float64_round (1 / 3) = 6004799503160661 / 18014398509481984" "float64_round 1 = 1"
    by code_simp+
  have c0: "count_list [0, 0, 0, 1::nat] ([0, 0, 0, 1::nat] ! 0) = 3"
    and c3: "count_list [0, 0, 0, 1::nat] ([0, 0, 0, 1::nat] ! 3) = 1"
    by simp_all
  have i0: "0 < length [0, 0, 0, 1::nat]" and i3: "3 < length [0, 0, 0, 1::nat]"
    by simp_all
  note n0 = nth [rule_format, OF i0, unfolded c0]
  note n3 = nth [rule_format, OF i3, unfolded c3]
  from n0 [THEN conjunct1] have "ws ! 0 = float64_round (1 / 3)" by simp
  moreover from n0 [THEN conjunct2] have "\<bar>ws ! 0 - 1 / 3\<bar> \<le> (1 / 3) / 2 ^ 53" by simp
  moreover from n3 [THEN conjunct1] have "ws ! 3 = float64_round 1" by simp
  moreover from sums have
    "\<bar>sum_list (map snd (filter (\<lambda>(t, w). t = 0) (zip [0, 0, 0, 1::nat] ws))) - 1\<bar>
       \<le> 1 / 2 ^ 53"
    by simp
  ultimately show ?thesis using ws v by auto
qed

lemma take_indices_length: "take_indices a idx = Inr xs \<Longrightarrow> length xs = length idx"
  by (induction idx arbitrary: xs) (auto split: sum.splits)

lemma train_sampler_InrD:
  assumes "train_sampler tg train_idx = Inr s"
  shows "\<exists>train_targets. take_indices tg train_idx = Inr train_targets
     \<and> sample_weights train_targets = Inr (weights s)
     \<and> weights s =
         map (\<lambda>t. float64_div 1 (float64_of_nat (count_list train_targets t))) train_targets
     \<and> num_samples s = int (length train_idx) \<and> replacement s"
proof (cases "take_indices tg train_idx")
  case (Inl e)
  with assms show ?thesis by (simp add: train_sampler_def)
next
  case (Inr tt)
  have len: "length tt = length train_idx" using Inr by (rule take_indices_length)
  from assms Inr have
    "WeightedRandomSampler_init
       (map (\<lambda>t. float64_div 1 (float64_of_nat (count_list tt t))) tt)
       (int (length tt)) True = Inr s"
    by (simp add: train_sampler_def sample_weights_eq)
  then have "s = \<lparr>weights = map (\<lambda>t. float64_div 1 (float64_of_nat (count_list tt t))) tt,
      num_samples = int (length tt), replacement = True\<rparr>"
    by (simp add: WeightedRandomSampler_init_def split: if_splits)
  with Inr len show ?thesis by (simp add: sample_weights_eq)
qed

lemma DataLoader_init_InrD:
  "DataLoader_init ds b sm k = Inr ld \<Longrightarrow>
     ld = \<lparr>dl_dataset = ds, dl_batch_size = b, dl_sampler = sm, dl_num_workers = k\<rparr>"
  by (simp add: DataLoader_init_def split: if_splits)

lemma create_dataloaders_InrD:
  assumes "create_dataloaders env dataset_dir batch_size k = Inr r"
  shows "\<exists>full fd tr va te s.
      image_folder env dataset_dir = Inr full
    \<and> FilteredDataset_init full class_names = Inr fd
    \<and> stratified_split (train_test_split env) (FilteredDataset_len fd) (targets fd)
        = Inr (tr, va, te)
    \<and> train_sampler (targets fd) tr = Inr s
    \<and> train_dataset r = \<lparr>ts_subset = \<lparr>sub_dataset = fd, indices = tr\<rparr>,
                          ts_transform = Some (transform env ''train'')\<rparr>
    \<and> val_dataset r = \<lparr>ts_subset = \<lparr>sub_dataset = fd, indices = va\<rparr>,
                        ts_transform = Some (transform env ''val'')\<rparr>
    \<and> test_dataset r = \<lparr>ts_subset = \<lparr>sub_dataset = fd, indices = te\<rparr>,
                         ts_transform = Some (transform env ''test'')\<rparr>
    \<and> train_loader r = \<lparr>dl_dataset = train_dataset r, dl_batch_size = batch_size,
                         dl_sampler = Some s, dl_num_workers = k\<rparr>
    \<and> val_loader r = \<lparr>dl_dataset = val_dataset r, dl_batch_size = batch_size,
                       dl_sampler = None, dl_num_workers = k\<rparr>
    \<and> test_loader r = \<lparr>dl_dataset = test_dataset r, dl_batch_size = batch_size,
                        dl_sampler = None, dl_num_workers = k\<rparr>"
proof -
  from assms have ex: "path_exists env dataset_dir"
    by (auto simp: create_dataloaders_def split: if_splits)
  from assms ex obtain full where full: "image_folder env dataset_dir = Inr full"
    by (cases "image_folder env dataset_dir") (simp_all add: create_dataloaders_def)
  from assms ex full obtain fd where fd: "FilteredDataset_init full class_names = Inr fd"
    by (cases "FilteredDataset_init full class_names") (simp_all add: create_dataloaders_def)
  from assms ex full fd obtain tr va te where
    sp: "stratified_split (train_test_split env) (FilteredDataset_len fd) (targets fd)
        = Inr (tr, va, te)"
    by (cases "stratified_split (train_test_split env) (FilteredDataset_len fd) (targets fd)")
       (auto simp: create_dataloaders_def)
  from assms ex full fd sp obtain s where s: "train_sampler (targets fd) tr = Inr s"
    by (cases "train_sampler (targets fd) tr") (simp_all add: create_dataloaders_def)
  let ?trd = "\<lparr>ts_subset = \<lparr>sub_dataset = fd, indices = tr\<rparr>,
                ts_transform = Some (transform env ''train'')\<rparr>"
  let ?vad = "\<lparr>ts_subset = \<lparr>sub_dataset = fd, indices = va\<rparr>,
                ts_transform = Some (transform env ''val'')\<rparr>"
  let ?ted = "\<lparr>ts_subset = \<lparr>sub_dataset = fd, indices = te\<rparr>,
                ts_transform = Some (transform env ''test'')\<rparr>"
  from assms ex full fd sp s obtain l1 where
    l1: "DataLoader_init ?trd batch_size (Some s) k = Inr l1"
    by (cases "DataLoader_init ?trd batch_size (Some s) k")
       (simp_all add: create_dataloaders_def Let_def)
  from assms ex full fd sp s l1 obtain l2 where
    l2: "DataLoader_init ?vad batch_size None k = Inr l2"
    by (cases "DataLoader_init ?vad batch_size None k")
       (simp_all add: create_dataloaders_def Let_def)
  from assms ex full fd sp s l1 l2 obtain l3 where
    l3: "DataLoader_init ?ted batch_size None k = Inr l3"
    by (cases "DataLoader_init ?ted batch_size None k")
       (simp_all add: create_dataloaders_def Let_def)
  from assms ex full fd sp s l1 l2 l3 have
    r: "r = \<lparr>train_loader = l1, val_loader = l2, test_loader = l3,
             train_dataset = ?trd, val_dataset = ?vad, test_dataset = ?ted\<rparr>"
    by (simp add: create_dataloaders_def Let_def)
  show ?thesis
    using full fd sp s r DataLoader_init_InrD [OF l1] DataLoader_init_InrD [OF l2]
      DataLoader_init_InrD [OF l3]
    by simp
qed

text \<open>
  Claim C7. Whenever \<open>create_dataloaders\<close> returns, the training loader reads the
  training view through a \<open>WeightedRandomSampler\<close> built with \<open>replacement=True\<close>,
  with \<open>num_samples\<close> (its length, the number of draws of one pass) equal to the number
  of training positions, and with the weights that the weight computation returns for
  the training targets: for a sample whose class has \<open>n\<close> training samples, the float64
  quotient \<open>1.0 / n\<close>. The validation and test loaders have no sampler. How the sampler
  draws from its weights is the library's and is not modelled.
\<close>

theorem training_sampler_policy:
  assumes "create_dataloaders env dataset_dir batch_size k = Inr r"
  shows "\<exists>s train_targets.
       dl_sampler (train_loader r) = Some s
     \<and> dl_dataset (train_loader r) = train_dataset r
     \<and> replacement s
     \<and> num_samples s = int (TransformSubset_len (train_dataset r))
     \<and> WeightedRandomSampler_len s = int (TransformSubset_len (train_dataset r))
     \<and> take_indices (targets (sub_dataset (ts_subset (train_dataset r))))
          (indices (ts_subset (train_dataset r))) = Inr train_targets
     \<and> sample_weights train_targets = Inr (weights s)
     \<and> weights s =
         map (\<lambda>t. float64_div 1 (float64_of_nat (count_list train_targets t))) train_targets
     \<and> dl_sampler (val_loader r) = None
     \<and> dl_sampler (test_loader r) = None"
proof -
  from create_dataloaders_InrD [OF assms] obtain fd tr s where
    s: "train_sampler (targets fd) tr = Inr s"
    and trd: "train_dataset r = \<lparr>ts_subset = \<lparr>sub_dataset = fd, indices = tr\<rparr>,
                          ts_transform = Some (transform env ''train'')\<rparr>"
    and ld: "dl_sampler (train_loader r) = Some s" "dl_dataset (train_loader r) = train_dataset r"
      "dl_sampler (val_loader r) = None" "dl_sampler (test_loader r) = None"
    by force
  from train_sampler_InrD [OF s] obtain tt where
    "take_indices (targets fd) tr = Inr tt"
    "sample_weights tt = Inr (weights s)"
    "weights s = map (\<lambda>t. float64_div 1 (float64_of_nat (count_list tt t))) tt"
    "num_samples s = int (length tr)" "replacement s"
    by blast
  then show ?thesis
    using ld trd
    by (simp add: TransformSubset_len_def Subset_len_def WeightedRandomSampler_len_def)
qed


lemma env22_runs: "\<not> isl (create_dataloaders env22 ''data'' 16 4)"
  by code_simp

lemma split21: "stratified_split recorded_split 21 targets21 = Inr (train_idx21, val_idx21, test_idx21)"
  by code_simp

theorem training_sampler_policy_witness:
  "\<exists>r s. create_dataloaders env22 ''data'' 16 4 = Inr r
     \<and> dl_sampler (train_loader r) = Some s
     \<and> replacement s
     \<and> WeightedRandomSampler_len s = int (TransformSubset_len (train_dataset r))
     \<and> dl_sampler (val_loader r) = None"
proof -
  from env22_runs obtain r where r: "create_dataloaders env22 ''data'' 16 4 = Inr r"
    by (cases "create_dataloaders env22 ''data'' 16 4") auto
  from training_sampler_policy [OF r] show ?thesis using r by blast
qed

section \<open>The stratified split: proofs\<close>

lemma set_arange: "set (arange n) = int ` {0..<n}"
  by (simp add: arange_def)

lemma distinct_arange: "distinct (arange n)"
  by (simp add: arange_def distinct_map)

lemma length_arange: "length (arange n) = n"
  by (simp add: arange_def)

lemma getitem_in_range:
  "0 \<le> v \<Longrightarrow> v < int (length a) \<Longrightarrow> getitem a v = Inr (a ! nat v)"
  by (simp add: getitem_def)

lemma take_indices_in_range:
  "\<forall>v \<in> set idx. 0 \<le> v \<and> v < int (length a) \<Longrightarrow>
     take_indices a idx = Inr (map (\<lambda>v. a ! nat v) idx)"
  by (induction idx) (simp_all add: getitem_in_range)

lemma stratified_split_InrD:
  assumes "stratified_split f n tg = Inr (tr, va, te)"
  shows "\<exists>tmp tt. f (arange n) (1 / 5) tg (Some 42) = Inr (tr, tmp)
     \<and> take_indices tg tmp = Inr tt
     \<and> f tmp (1 / 2) tt (Some 42) = Inr (va, te)"
proof (cases "f (arange n) (1 / 5) tg (Some 42)")
  case (Inl e)
  with assms show ?thesis by (simp add: stratified_split_def)
next
  case (Inr p)
  obtain tr' tmp where p: "p = (tr', tmp)" by (cases p)
  show ?thesis
  proof (cases "take_indices tg tmp")
    case (Inl e)
    with assms Inr p show ?thesis by (simp add: stratified_split_def)
  next
    case tt: (Inr tt)
    show ?thesis
    proof (cases "f tmp (1 / 2) tt (Some 42)")
      case (Inl e)
      with assms Inr p tt show ?thesis by (simp add: stratified_split_def)
    next
      case q: (Inr q)
      obtain va' te' where "q = (va', te')" by (cases q)
      with assms Inr p tt q show ?thesis by (simp add: stratified_split_def)
    qed
  qed
qed

lemma stratified_split_msets:
  assumes c: "splits_its_input f"
    and sp: "stratified_split f n tg = Inr (tr, va, te)"
  shows "mset tr + mset va + mset te = mset (arange n)"
proof -
  from stratified_split_InrD [OF sp] obtain tmp tt where
    a: "f (arange n) (1 / 5) tg (Some 42) = Inr (tr, tmp)"
    and b: "f tmp (1 / 2) tt (Some 42) = Inr (va, te)"
    by blast
  from c a have "mset tr + mset tmp = mset (arange n)"
    unfolding splits_its_input_def by blast
  moreover from c b have "mset va + mset te = mset tmp"
    unfolding splits_its_input_def by blast
  ultimately show ?thesis by (simp add: add.assoc)
qed

lemma stratified_split_partition:
  assumes c: "splits_its_input f"
    and sp: "stratified_split f n tg = Inr (tr, va, te)"
  shows "set tr \<union> set va \<union> set te = int ` {0..<n}
     \<and> set tr \<inter> set va = {} \<and> set tr \<inter> set te = {} \<and> set va \<inter> set te = {}
     \<and> distinct tr \<and> distinct va \<and> distinct te
     \<and> length tr + length va + length te = n"
proof -
  have m: "mset (tr @ va @ te) = mset (arange n)"
    using stratified_split_msets [OF c sp] by (simp add: add.assoc)
  from m have s: "set (tr @ va @ te) = set (arange n)" by (rule mset_eq_setD)
  from m have d: "distinct (tr @ va @ te)"
    using mset_eq_imp_distinct_iff [OF m] distinct_arange by simp
  from m have "length (tr @ va @ te) = length (arange n)" by (rule mset_eq_length)
  then have l: "length tr + length va + length te = n" by (simp add: length_arange)
  from s have "set tr \<union> set va \<union> set te = int ` {0..<n}"
    by (simp add: set_arange Un_assoc)
  moreover from d have "set tr \<inter> set va = {}" "set tr \<inter> set te = {}" "set va \<inter> set te = {}"
    "distinct tr" "distinct va" "distinct te"
    by auto
  ultimately show ?thesis using l by simp
qed

lemma recorded_split_splits: "splits_its_input recorded_split"
proof -
  have a: "sort (train_idx21 @ temp_idx21) = arange 21" by code_simp
  have b: "sort (val_idx21 @ test_idx21) = sort temp_idx21" by code_simp
  have ma: "mset train_idx21 + mset temp_idx21 = mset (arange 21)"
    using arg_cong [OF a, of mset] by simp
  have mb: "mset val_idx21 + mset test_idx21 = mset temp_idx21"
    using arg_cong [OF b, of mset] by simp
  show ?thesis
    unfolding splits_its_input_def recorded_split_def
    using ma mb by (auto split: if_splits)
qed

text \<open>
  Claim C1. The library splitter is taken at its documented word: the two parts it
  returns hold the elements of the array it was given, each once. Then whenever
  \<open>create_dataloaders\<close> returns, its three views read the same filtered dataset, and
  their index arrays are pairwise disjoint, without repetition, and together hold
  exactly the positions \<open>0, ..., len(filtered_dataset) - 1\<close>.
\<close>

theorem split_is_partition:
  assumes "splits_its_input (train_test_split env)"
    and "create_dataloaders env dataset_dir batch_size k = Inr r"
  shows "sub_dataset (ts_subset (val_dataset r)) = sub_dataset (ts_subset (train_dataset r))
     \<and> sub_dataset (ts_subset (test_dataset r)) = sub_dataset (ts_subset (train_dataset r))
     \<and> set (indices (ts_subset (train_dataset r))) \<union> set (indices (ts_subset (val_dataset r)))
          \<union> set (indices (ts_subset (test_dataset r)))
        = int ` {0..<FilteredDataset_len (sub_dataset (ts_subset (train_dataset r)))}
     \<and> set (indices (ts_subset (train_dataset r))) \<inter> set (indices (ts_subset (val_dataset r))) = {}
     \<and> set (indices (ts_subset (train_dataset r))) \<inter> set (indices (ts_subset (test_dataset r))) = {}
     \<and> set (indices (ts_subset (val_dataset r))) \<inter> set (indices (ts_subset (test_dataset r))) = {}
     \<and> distinct (indices (ts_subset (train_dataset r)))
     \<and> distinct (indices (ts_subset (val_dataset r)))
     \<and> distinct (indices (ts_subset (test_dataset r)))"
proof -
  from create_dataloaders_InrD [OF assms(2)] obtain fd tr va te where
    sp: "stratified_split (train_test_split env) (FilteredDataset_len fd) (targets fd)
        = Inr (tr, va, te)"
    and v: "train_dataset r = \<lparr>ts_subset = \<lparr>sub_dataset = fd, indices = tr\<rparr>,
                          ts_transform = Some (transform env ''train'')\<rparr>"
      "val_dataset r = \<lparr>ts_subset = \<lparr>sub_dataset = fd, indices = va\<rparr>,
                        ts_transform = Some (transform env ''val'')\<rparr>"
      "test_dataset r = \<lparr>ts_subset = \<lparr>sub_dataset = fd, indices = te\<rparr>,
                         ts_transform = Some (transform env ''test'')\<rparr>"
    by blast
  from stratified_split_partition [OF assms(1) sp] show ?thesis
    by (simp add: v)
qed

theorem split_is_partition_witness:
  "\<exists>r. create_dataloaders env22 ''data'' 16 4 = Inr r
     \<and> set (indices (ts_subset (train_dataset r))) \<union> set (indices (ts_subset (val_dataset r)))
          \<union> set (indices (ts_subset (test_dataset r)))
        = int ` {0..<FilteredDataset_len (sub_dataset (ts_subset (train_dataset r)))}
     \<and> set (indices (ts_subset (train_dataset r))) \<inter> set (indices (ts_subset (val_dataset r))) = {}
     \<and> set (indices (ts_subset (train_dataset r))) \<inter> set (indices (ts_subset (test_dataset r))) = {}
     \<and> set (indices (ts_subset (val_dataset r))) \<inter> set (indices (ts_subset (test_dataset r))) = {}"
proof -
  from env22_runs obtain r where r: "create_dataloaders env22 ''data'' 16 4 = Inr r"
    by (cases "create_dataloaders env22 ''data'' 16 4") auto
  have c: "splits_its_input (train_test_split env22)"
    by (simp add: env22_def recorded_split_splits)
  from split_is_partition [OF c r] show ?thesis using r by blast
qed


text \<open>
  Claim C5. Both library calls of the split pass the seed explicitly,
  \<open>random_state=42\<close>, and the fractions \<open>0.2\<close> and \<open>0.5\<close> are constants of the code.
  So the partition is a function of the filtered targets and of what the library does
  when it is seeded with 42: two runs of the library, \<open>f\<close> and \<open>g\<close>, that agree on every
  call seeded with 42 give the same result on the same filtered index, whatever they
  do when they are not seeded.
\<close>

theorem split_is_reproducible:
  assumes "\<forall>arrays test_size stratify.
      f arrays test_size stratify (Some 42) = g arrays test_size stratify (Some 42)"
  shows "stratified_split f n tg = stratified_split g n tg"
proof -
  from assms have "f arrays test_size stratify (Some 42) = g arrays test_size stratify (Some 42)"
    for arrays test_size stratify
    by blast
  then show ?thesis
    by (simp add: stratified_split_def cong: sum.case_cong prod.case_cong)
qed

theorem split_is_reproducible_witness:
  "stratified_split (\<lambda>arrays test_size stratify random_state.
       if random_state = None then Inr (arrays, [])
       else recorded_split arrays test_size stratify random_state) 21 targets21
   = Inr (train_idx21, val_idx21, test_idx21)"
proof -
  let ?g = "\<lambda>arrays test_size stratify random_state.
       if random_state = None then Inr (arrays, [])
       else recorded_split arrays test_size stratify random_state"
  have "\<forall>arrays test_size stratify.
      recorded_split arrays test_size stratify (Some 42) = ?g arrays test_size stratify (Some 42)"
    by simp
  then have "stratified_split recorded_split 21 targets21 = stratified_split ?g 21 targets21"
    by (rule split_is_reproducible)
  then show ?thesis
    by (simp add: split21)
qed

text \<open>
  Claim C6 says that a class of fewer than two members makes the split fail with a
  \<open>SplitError\<close> that names the class. The module has no such check and no such error
  class: on three samples of class 0 and one of class 1 the first library call refuses
  the \<open>stratify\<close> array, and what the caller sees is the library's \<open>ValueError\<close>.
\<close>

theorem small_class_counterexample:
  "(case stratified_split recorded_split 4 [0, 0, 0, 1] of
      Inl (ValueError msg) \<Rightarrow> True
    | _ \<Rightarrow> False)"
  by code_simp

lemma recorded_split_refuses: "refuses_small_classes recorded_split"
  by (auto simp: refuses_small_classes_def recorded_split_def)

text \<open>
  Claim C6, amended. scikit-learn refuses a \<open>stratify\<close> array with a class of fewer
  than two members. So when a class of the filtered index has fewer than two members
  the split produces no partition: the first library call raises a \<open>ValueError\<close> and
  the split fails with that same error, its message unchanged. The check and what the
  message reports are the library's.
\<close>

theorem split_fails_on_small_class:
  assumes "refuses_small_classes f" and "c \<in> set tg" and "count_list tg c < 2"
  shows "\<exists>msg. f (arange n) (1 / 5) tg (Some 42) = Inl (ValueError msg)
     \<and> stratified_split f n tg = Inl (ValueError msg)"
proof -
  from assms(2,3) have "\<exists>c \<in> set tg. count_list tg c < 2" by blast
  with assms(1) obtain msg where "f (arange n) (1 / 5) tg (Some 42) = Inl (ValueError msg)"
    unfolding refuses_small_classes_def by blast
  then show ?thesis by (auto simp: stratified_split_def)
qed

theorem split_fails_on_small_class_witness:
  "(case stratified_split recorded_split 3 [0, 1, 1] of
      Inl (ValueError msg) \<Rightarrow> True
    | _ \<Rightarrow> False)"
proof -
  have "0 \<in> set [0, 1, 1::nat]" "count_list [0, 1, 1::nat] 0 < 2" by simp_all
  from split_fails_on_small_class [OF recorded_split_refuses this, of 3]
  obtain msg where "stratified_split recorded_split 3 [0, 1, 1] = Inl (ValueError msg)"
    by blast
  then show ?thesis by simp
qed

text \<open>
  Claim C4 bounds the deviation of every class fraction from 0.8, 0.1 and 0.1 by
  \<open>1 / n\<close> for a class of \<open>n\<close> samples. On two samples of class 0 and nineteen of
  class 1 the split returns, and class 1 has 14 training positions and 3 test
  positions: \<open>14 / 19\<close> is further than \<open>1 / 19\<close> from \<open>0.8\<close>, and \<open>3 / 19\<close> is
  further than \<open>1 / 19\<close> from \<open>0.1\<close>. The library rounds the held-out total up
  before it allots places to the classes, and the code splits twice.
\<close>

theorem stratification_bound_counterexample:
  "stratified_split recorded_split 21 targets21 = Inr (train_idx21, val_idx21, test_idx21)
   \<and> count_list targets21 1 = 19
   \<and> class_count targets21 train_idx21 1 = 14
   \<and> class_count targets21 test_idx21 1 = 3
   \<and> 1 / 19 < \<bar>class_fraction targets21 train_idx21 1 - 4 / 5\<bar>
   \<and> 1 / 19 < \<bar>class_fraction targets21 test_idx21 1 - 1 / 10\<bar>"
  by code_simp

lemma count_list_map_filter: "count_list (map h xs) c = length (filter (\<lambda>v. h v = c) xs)"
  by (induction xs) simp_all

lemma class_count_in_range:
  assumes "\<forall>v \<in> set part. 0 \<le> v \<and> v < int (length tg)"
  shows "class_count tg part c = count_list (map (\<lambda>v. tg ! nat v) part) c"
proof -
  have "filter (\<lambda>v. getitem tg v = Inr c) part = filter (\<lambda>v. tg ! nat v = c) part"
    using assms by (intro filter_cong) (auto simp: getitem_in_range)
  then show ?thesis by (simp add: class_count_def count_list_map_filter)
qed

lemma class_count_arange: "class_count tg (arange (length tg)) c = count_list tg c"
proof -
  have "class_count tg (arange (length tg)) c =
      count_list (map (\<lambda>v. tg ! nat v) (arange (length tg))) c"
    by (rule class_count_in_range) (auto simp: set_arange)
  also have "map (\<lambda>v. tg ! nat v) (arange (length tg)) = tg"
    by (simp add: arange_def comp_def map_nth)
  finally show ?thesis .
qed

lemma class_count_add:
  assumes "mset a + mset b = mset x"
  shows "class_count tg a c + class_count tg b c = class_count tg x c"
proof -
  have "class_count tg ys c = size (filter_mset (\<lambda>v. getitem tg v = Inr c) (mset ys))" for ys
    by (simp add: class_count_def flip: mset_filter)
  then show ?thesis
    using assms by (simp flip: size_union filter_union_mset)
qed

lemma split_class_counts:
  assumes c1: "splits_its_input f"
    and h1: "first_call_within d f tg c"
    and h2: "second_call_within d f tg c"
    and sp: "stratified_split f (length tg) tg = Inr (tr, va, te)"
  shows "\<exists>T. class_count tg tr c + T = count_list tg c
     \<and> class_count tg va c + class_count tg te c = T
     \<and> \<bar>rat_of_nat T - 1 / 5 * rat_of_nat (count_list tg c)\<bar> \<le> d
     \<and> \<bar>rat_of_nat (class_count tg te c) - 1 / 2 * rat_of_nat T\<bar> \<le> d"
proof -
  from stratified_split_InrD [OF sp] obtain tmp tt where
    a: "f (arange (length tg)) (1 / 5) tg (Some 42) = Inr (tr, tmp)"
    and tk: "take_indices tg tmp = Inr tt"
    and b: "f tmp (1 / 2) tt (Some 42) = Inr (va, te)"
    by blast
  from c1 a have m1: "mset tr + mset tmp = mset (arange (length tg))"
    unfolding splits_its_input_def by blast
  from c1 b have m2: "mset va + mset te = mset tmp"
    unfolding splits_its_input_def by blast
  have k1: "class_count tg tr c + class_count tg tmp c = count_list tg c"
    using class_count_add [OF m1, of tg c] by (simp add: class_count_arange)
  have k2: "class_count tg va c + class_count tg te c = class_count tg tmp c"
    by (rule class_count_add [OF m2])
  from h1 a have b1: "\<bar>rat_of_nat (class_count tg tmp c) - 1 / 5 * rat_of_nat (count_list tg c)\<bar> \<le> d"
    unfolding first_call_within_def by blast
  from h2 a tk b have
    b2: "\<bar>rat_of_nat (class_count tg te c) - 1 / 2 * rat_of_nat (class_count tg tmp c)\<bar> \<le> d"
    unfolding second_call_within_def by blast
  from k1 k2 b1 b2 show ?thesis by blast
qed

lemma fraction_bound:
  fixes x n q b :: rat
  assumes "0 < n" and "\<bar>x - q * n\<bar> \<le> b"
  shows "\<bar>x / n - q\<bar> \<le> b / n"
proof -
  have "x / n - q = (x - q * n) / n"
    using assms(1) by (simp add: field_simps)
  then have "\<bar>x / n - q\<bar> = \<bar>x - q * n\<bar> / n"
    using assms(1) by (simp add: abs_divide)
  then show ?thesis
    using assms by (simp add: divide_right_mono)
qed

text \<open>
  Claim C4, amended. The code asks the library for a stratified hold-out of 0.2 of all
  positions and then for a stratified hold-out of 0.5 of the held-out positions, and
  adds no rounding of its own. For a class \<open>c\<close> present, with \<open>n\<close> samples: if each of
  these two calls holds out a number of positions of class \<open>c\<close> within \<open>d\<close> of
  \<open>test_size\<close> times the number of positions of class \<open>c\<close> it was given, then the
  training fraction of \<open>c\<close> is within \<open>d / n\<close> of 0.8 and the validation and test
  fractions are within \<open>1.5 d / n\<close> of 0.1.
\<close>

theorem stratification_bound:
  assumes c1: "splits_its_input f"
    and h1: "first_call_within d f tg c"
    and h2: "second_call_within d f tg c"
    and sp: "stratified_split f (length tg) tg = Inr (tr, va, te)"
    and c: "c \<in> set tg"
  shows "\<bar>class_fraction tg tr c - 4 / 5\<bar> \<le> d / of_nat (count_list tg c)
     \<and> \<bar>class_fraction tg va c - 1 / 10\<bar> \<le> (3 / 2 * d) / of_nat (count_list tg c)
     \<and> \<bar>class_fraction tg te c - 1 / 10\<bar> \<le> (3 / 2 * d) / of_nat (count_list tg c)"
proof -
  from split_class_counts [OF c1 h1 h2 sp] obtain T where
    k1: "class_count tg tr c + T = count_list tg c"
    and k2: "class_count tg va c + class_count tg te c = T"
    and b1': "\<bar>rat_of_nat T - 1 / 5 * rat_of_nat (count_list tg c)\<bar> \<le> d"
    and b2': "\<bar>rat_of_nat (class_count tg te c) - 1 / 2 * rat_of_nat T\<bar> \<le> d"
    by blast
  define N R V E Tq where "N = rat_of_nat (count_list tg c)"
    and "R = rat_of_nat (class_count tg tr c)"
    and "V = rat_of_nat (class_count tg va c)"
    and "E = rat_of_nat (class_count tg te c)"
    and "Tq = rat_of_nat T"
  from c have "count_list tg c \<noteq> 0" by (simp add: count_list_0_iff)
  then have N: "0 < N" by (simp add: N_def)
  have e1: "R + Tq = N"
    unfolding R_def Tq_def N_def using k1 by (simp flip: of_nat_add)
  have e2: "V + E = Tq"
    unfolding V_def E_def Tq_def using k2 by (simp flip: of_nat_add)
  from b1' have b1: "\<bar>Tq - 1 / 5 * N\<bar> \<le> d" by (simp add: Tq_def N_def)
  from b2' have b2: "\<bar>E - 1 / 2 * Tq\<bar> \<le> d" by (simp add: E_def Tq_def)
  have r: "\<bar>R - 4 / 5 * N\<bar> \<le> d" using e1 b1 by linarith
  have v: "\<bar>V - 1 / 10 * N\<bar> \<le> 3 / 2 * d" using e1 e2 b1 b2 by linarith
  have e: "\<bar>E - 1 / 10 * N\<bar> \<le> 3 / 2 * d" using e1 e2 b1 b2 by linarith
  show ?thesis
    using fraction_bound [OF N r] fraction_bound [OF N v] fraction_bound [OF N e]
    by (simp add: class_fraction_def N_def R_def V_def E_def)
qed

lemma recorded_calls21:
  "recorded_split (arange (length targets21)) (1 / 5) targets21 (Some 42)
     = Inr (train_idx21, temp_idx21)"
  "take_indices targets21 temp_idx21 = Inr (replicate 5 1)"
  "recorded_split temp_idx21 (1 / 2) (replicate 5 1) (Some 42) = Inr (val_idx21, test_idx21)"
  by code_simp+

lemma recorded_counts21:
  "count_list targets21 1 = 19" "count_list targets21 (Suc 0) = 19"
  "class_count targets21 temp_idx21 1 = 5" "class_count targets21 temp_idx21 (Suc 0) = 5"
  "class_count targets21 test_idx21 1 = 3" "class_count targets21 test_idx21 (Suc 0) = 3"
  by code_simp+

theorem stratification_bound_witness:
  "\<bar>class_fraction targets21 train_idx21 1 - 4 / 5\<bar> \<le> (6 / 5) / 19
   \<and> \<bar>class_fraction targets21 val_idx21 1 - 1 / 10\<bar> \<le> (3 / 2 * (6 / 5)) / 19
   \<and> \<bar>class_fraction targets21 test_idx21 1 - 1 / 10\<bar> \<le> (3 / 2 * (6 / 5)) / 19"
proof -
  have len: "length targets21 = 21" by (simp add: targets21_def)
  have c: "1 \<in> set targets21" by (simp add: targets21_def)
  have h1: "first_call_within (6 / 5) recorded_split targets21 1"
    unfolding first_call_within_def
  proof (intro allI impI)
    fix a b
    assume "recorded_split (arange (length targets21)) (1 / 5) targets21 (Some 42) = Inr (a, b)"
    with recorded_calls21(1) have b: "b = temp_idx21" by simp
    show "\<bar>rat_of_nat (class_count targets21 b 1) - 1 / 5 * rat_of_nat (count_list targets21 1)\<bar>
        \<le> 6 / 5"
      unfolding b recorded_counts21 by simp
  qed
  have h2: "second_call_within (6 / 5) recorded_split targets21 1"
    unfolding second_call_within_def
  proof (intro allI impI)
    fix a b tt v t
    assume "recorded_split (arange (length targets21)) (1 / 5) targets21 (Some 42) = Inr (a, b)"
      and tk: "take_indices targets21 b = Inr tt"
      and sc: "recorded_split b (1 / 2) tt (Some 42) = Inr (v, t)"
    with recorded_calls21(1) have b: "b = temp_idx21" by simp
    from tk recorded_calls21(2) have tt: "tt = replicate 5 1" unfolding b by simp
    from sc recorded_calls21(3) have t: "t = test_idx21" unfolding b tt by simp
    show "\<bar>rat_of_nat (class_count targets21 t 1)
        - 1 / 2 * rat_of_nat (class_count targets21 b 1)\<bar> \<le> 6 / 5"
      unfolding b t recorded_counts21 by simp
  qed
  from stratification_bound [OF recorded_split_splits h1 h2 split21 [folded len] c]
  show ?thesis by (simp add: recorded_counts21)
qed

end
